theory Spec2Isabelle
  imports Main "HOL-Library.Word"
begin

section \<open>database-iteration: the list endpoint and its continuation tokens\<close>

text \<open>
  A shallow embedding of \<^verbatim>\<open>database-iteration/main.go\<close>: the two token types with their
  \<^verbatim>\<open>MarshalJSON\<close>/\<^verbatim>\<open>UnmarshalJSON\<close> methods and \<^verbatim>\<open>listHandler\<close>.
  The functions of the Go standard library that the file calls (\<^verbatim>\<open>time\<close>, \<^verbatim>\<open>strconv\<close>,
  \<^verbatim>\<open>encoding/base64\<close>, \<^verbatim>\<open>encoding/json\<close>, \<^verbatim>\<open>net/url\<close>) are modelled as far as the
  file uses them. A byte is a \<^typ>\<open>char\<close>, a byte slice or Go string a \<^typ>\<open>string\<close>; Go's
  \<^verbatim>\<open>int64\<close> and (on a 64-bit platform) \<^verbatim>\<open>int\<close> are 64-bit words read with \<^const>\<open>sint\<close>.
\<close>

type_synonym int64 = "64 word"

subsection \<open>package time\<close>

text \<open>
  A \<^verbatim>\<open>time.Time\<close> without monotonic clock reading: the seconds since January 1 of year 1
  (\<^verbatim>\<open>t.sec()\<close>, an int64) and the nanoseconds within the second (\<^verbatim>\<open>t.nsec()\<close>). The
  location is kept beside the value where the handler prints a time or adds a day to it,
  so equality of two values is Go's \<^verbatim>\<open>Equal\<close>: the same instant.
\<close>

record Time =
  sec :: int64
  nsec :: nat

definition unixToInternal :: int64 where
  "unixToInternal = 62135596800"

definition zeroTime :: Time where
  \<comment> \<open>the zero value \<^verbatim>\<open>time.Time{}\<close>\<close>
  "zeroTime = \<lparr>sec = 0, nsec = 0\<rparr>"

definition IsZero :: "Time \<Rightarrow> bool" where
  "IsZero t \<longleftrightarrow> sec t = 0 \<and> nsec t = 0"

definition Unix :: "Time \<Rightarrow> int64" where
  \<comment> \<open>\<^verbatim>\<open>t.Unix()\<close>: \<^verbatim>\<open>t.sec() + internalToUnix\<close>, in int64 arithmetic\<close>
  "Unix t = sec t - unixToInternal"

definition time_Unix :: "int64 \<Rightarrow> Time" where
  \<comment> \<open>\<^verbatim>\<open>time.Unix(s, 0)\<close>\<close>
  "time_Unix s = \<lparr>sec = s + unixToInternal, nsec = 0\<rparr>"

definition Before :: "Time \<Rightarrow> Time \<Rightarrow> bool" where
  \<comment> \<open>\<^verbatim>\<open>t.Before(u)\<close> on wall-clock readings\<close>
  "Before t u \<longleftrightarrow> sint (sec t) < sint (sec u) \<or> (sec t = sec u \<and> nsec t < nsec u)"

definition truncSecond :: "Time \<Rightarrow> Time" where
  \<comment> \<open>the instant with its sub-second part dropped\<close>
  "truncSecond t = t\<lparr>nsec := 0\<rparr>"

subsection \<open>package strconv\<close>

definition digitChars :: string where
  "digitChars = ''0123456789''"

definition isDigit :: "char \<Rightarrow> bool" where
  "isDigit c \<longleftrightarrow> c \<in> set digitChars"

definition digitVal :: "char \<Rightarrow> nat" where
  \<comment> \<open>\<^verbatim>\<open>c - '0'\<close>, for a digit\<close>
  "digitVal c = of_char c - 48"

function formatNat :: "int \<Rightarrow> string" where
  "formatNat n = (if n < 10 then [digitChars ! nat n]
     else formatNat (n div 10) @ [digitChars ! nat (n mod 10)])"
  by pat_completeness auto
termination
  by (relation "measure nat") auto

declare formatNat.simps [simp del]

definition FormatInt :: "int64 \<Rightarrow> string" where
  \<comment> \<open>\<^verbatim>\<open>strconv.FormatInt(i, 10)\<close>, which \<^verbatim>\<open>json.Marshal\<close> uses for every integer\<close>
  "FormatInt i = (if sint i < 0 then CHR ''-'' # formatNat (- sint i) else formatNat (sint i))"

definition parseNat :: "string \<Rightarrow> int" where
  "parseNat ds = foldl (\<lambda>a c. 10 * a + int (digitVal c)) 0 ds"

definition ParseInt :: "string \<Rightarrow> int64 option" where
  \<comment> \<open>\<^verbatim>\<open>strconv.ParseInt(s, 10, 64)\<close>, and \<^verbatim>\<open>strconv.Atoi\<close> on a 64-bit platform: an optional
      sign, at least one digit, nothing else, and the value in the int64 range\<close>
  "ParseInt s =
     (let neg = (s \<noteq> [] \<and> hd s = CHR ''-'');
          ds = (if s \<noteq> [] \<and> (hd s = CHR ''+'' \<or> hd s = CHR ''-'') then tl s else s)
      in if ds = [] \<or> \<not> list_all isDigit ds then None
         else if neg then
           (if 2 ^ 63 < parseNat ds then None else Some (word_of_int (- parseNat ds)))
         else
           (if 2 ^ 63 \<le> parseNat ds then None else Some (word_of_int (parseNat ds))))"

subsection \<open>package time: locations, printing and calendar days\<close>

text \<open>
  A \<^verbatim>\<open>*time.Location\<close> as far as the file uses it: its \<^verbatim>\<open>lookup\<close>, which gives for a Unix
  time the offset east of UTC in seconds that is in force then, and the Unix times from
  which and until which it is in force. A \<^typ>\<open>Time\<close> does not hold its location; the
  two functions that depend on it, \<^verbatim>\<open>Format\<close> and \<^verbatim>\<open>AddDate\<close>, take it as an argument.
\<close>

type_synonym Location = "int64 \<Rightarrow> int64 \<times> int64 \<times> int64"

definition utcLoc :: Location where
  \<comment> \<open>\<^verbatim>\<open>time.UTC\<close>: offset 0 at all times\<close>
  "utcLoc = (\<lambda>_. (0, - 9223372036854775808, 9223372036854775807))"

definition absSeconds :: "Location \<Rightarrow> Time \<Rightarrow> int" where
  \<comment> \<open>\<^verbatim>\<open>t.abs()\<close>: the seconds since January 1 of the year -292277022399 on the clock of the
      location, a uint64\<close>
  "absSeconds l t = uint (Unix t + fst (l (Unix t)) + 9223372028715321600)"

definition absDate :: "int \<Rightarrow> int \<times> int" where
  \<comment> \<open>the year and the day in the year (from 0) of a number of absolute seconds: cycles of
      400, 100 and 4 years are cut off, then single years\<close>
  "absDate a =
     (let d0 = a div 86400;
          n400 = d0 div 146097; d1 = d0 - 146097 * n400;
          n100 = d1 div 36524 - (d1 div 36524) div 4; d2 = d1 - 36524 * n100;
          n4 = d2 div 1461; d3 = d2 - 1461 * n4;
          n1 = d3 div 365 - (d3 div 365) div 4; d4 = d3 - 365 * n1
      in (400 * n400 + 100 * n100 + 4 * n4 + n1 - 292277022399, d4))"

definition isLeap :: "int \<Rightarrow> bool" where
  "isLeap year \<longleftrightarrow> year mod 4 = 0 \<and> (year mod 100 \<noteq> 0 \<or> year mod 400 = 0)"

definition daysBefore :: "int list" where
  \<comment> \<open>the days of a common year before each month, and 365\<close>
  "daysBefore = [0, 31, 59, 90, 120, 151, 181, 212, 243, 273, 304, 334, 365]"

definition monthDay :: "int \<Rightarrow> int \<Rightarrow> int \<times> int" where
  \<comment> \<open>the month and the day in the month of a day in a year\<close>
  "monthDay year yday =
     (if isLeap year \<and> yday = 59 then (2, 29)
      else
        (let day = (if isLeap year \<and> 59 < yday then yday - 1 else yday);
             m = day div 31
         in if daysBefore ! nat (m + 1) \<le> day
            then (m + 2, day - daysBefore ! nat (m + 1) + 1)
            else (m + 1, day - daysBefore ! nat m + 1)))"

definition appendInt :: "int \<Rightarrow> nat \<Rightarrow> string" where
  \<comment> \<open>a number with zeros in front up to the width, after the sign\<close>
  "appendInt x width =
     (let ds = formatNat \<bar>x\<bar>
      in (if x < 0 then ''-'' else []) @ replicate (width - length ds) (CHR ''0'') @ ds)"

definition Format_DateTime :: "Location \<Rightarrow> Time \<Rightarrow> string" where
  \<comment> \<open>\<^verbatim>\<open>t.Format(time.DateTime)\<close> for a time in the location: the layout
      \<^verbatim>\<open>2006-01-02 15:04:05\<close>, whole seconds on the clock of the location\<close>
  "Format_DateTime l t =
     (let a = absSeconds l t;
          year = fst (absDate a);
          md = monthDay year (snd (absDate a));
          s = a mod 86400
      in appendInt year 4 @ ''-'' @ appendInt (fst md) 2 @ ''-'' @ appendInt (snd md) 2
         @ '' '' @ appendInt (s div 3600) 2 @ '':'' @ appendInt (s mod 3600 div 60) 2
         @ '':'' @ appendInt (s mod 60) 2)"

definition AddDate_0_0_1 :: "Location \<Rightarrow> Time \<Rightarrow> Time" where
  \<comment> \<open>\<^verbatim>\<open>t.AddDate(0, 0, 1)\<close> for a time in the location: \<^verbatim>\<open>Date\<close> is called with the next
      day and the same clock reading, which is 86400 seconds later on the clock of the
      location; it then takes off the offset that is in force at the result, looked up as
      \<^verbatim>\<open>Date\<close> does. The result is 86400 seconds after \<open>t\<close> unless the offset changes
      in between.\<close>
  "AddDate_0_0_1 l t =
     (let unix = Unix t + fst (l (Unix t)) + 86400;
          offset = fst (l unix);
          start = fst (snd (l unix));
          end = snd (snd (l unix));
          utc = unix - offset;
          offset' = (if offset \<noteq> 0 \<and> (sint utc < sint start \<or> sint end \<le> sint utc)
                     then fst (l utc) else offset)
      in \<lparr>sec = unix - offset' + unixToInternal, nsec = nsec t\<rparr>)"

subsection \<open>package encoding/base64: StdEncoding\<close>

definition encodeStd :: string where
  "encodeStd = ''ABCDEFGHIJKLMNOPQRSTUVWXYZabcdefghijklmnopqrstuvwxyz0123456789+/''"

definition padChar :: char where
  "padChar = CHR ''=''"

fun b64Encode :: "string \<Rightarrow> string" where
  "b64Encode (x # y # z # rest) =
     (let a = of_char x; b = of_char y; c = of_char z :: nat
      in [encodeStd ! (a div 4), encodeStd ! ((a mod 4) * 16 + b div 16),
          encodeStd ! ((b mod 16) * 4 + c div 64), encodeStd ! (c mod 64)] @ b64Encode rest)"
| "b64Encode [x, y] =
     (let a = of_char x; b = of_char y :: nat
      in [encodeStd ! (a div 4), encodeStd ! ((a mod 4) * 16 + b div 16),
          encodeStd ! ((b mod 16) * 4), padChar])"
| "b64Encode [x] =
     (let a = of_char x :: nat
      in [encodeStd ! (a div 4), encodeStd ! ((a mod 4) * 16), padChar, padChar])"
| "b64Encode [] = []"

definition decodeMap :: "char \<Rightarrow> nat option" where
  \<comment> \<open>the position of a character in the alphabet; \<^const>\<open>None\<close> is the table's 0xFF\<close>
  "decodeMap c = map_of (zip encodeStd [0..<64]) c"

definition isNewline :: "char \<Rightarrow> bool" where
  "isNewline c \<longleftrightarrow> c = CHR 0x0A \<or> c = CHR 0x0D"

fun decodeQuanta :: "string \<Rightarrow> string option" where
  "decodeQuanta [] = Some []"
| "decodeQuanta (p # q # r # s # rest) =
     (case (decodeMap p, decodeMap q) of
        (Some a, Some b) \<Rightarrow>
          (case (decodeMap r, decodeMap s) of
             (Some c, Some d) \<Rightarrow>
               (case decodeQuanta rest of
                  None \<Rightarrow> None
                | Some out \<Rightarrow>
                    Some (char_of (a * 4 + b div 16) # char_of ((b mod 16) * 16 + c div 4)
                          # char_of ((c mod 4) * 64 + d) # out))
           | (Some c, None) \<Rightarrow>
               (if s = padChar \<and> rest = []
                then Some [char_of (a * 4 + b div 16), char_of ((b mod 16) * 16 + c div 4)]
                else None)
           | (None, _) \<Rightarrow>
               (if r = padChar \<and> s = padChar \<and> rest = []
                then Some [char_of (a * 4 + b div 16)]
                else None))
      | _ \<Rightarrow> None)"
| "decodeQuanta _ = None"

definition b64Decode :: "string \<Rightarrow> string option" where
  \<comment> \<open>\<^verbatim>\<open>base64.StdEncoding.Decode\<close>: carriage returns and line feeds are skipped, every
      four remaining characters give three bytes, padding is required and ends the input;
      \<^const>\<open>None\<close> is a \<^verbatim>\<open>CorruptInputError\<close>\<close>
  "b64Decode src = decodeQuanta (filter (\<lambda>c. \<not> isNewline c) src)"

subsection \<open>package encoding/json: the scanner\<close>

datatype json =
    JNull
  | JBool bool
  | JNumber string
  | JString string
  | JArray "json list"
  | JObject "(string \<times> json) list"

text \<open>
  A number keeps its literal; a string and a member's name are unquoted. The members of an
  object are kept in the order of the text, repeated names included.
\<close>

definition isSpace :: "char \<Rightarrow> bool" where
  "isSpace c \<longleftrightarrow> c = CHR '' '' \<or> c = CHR 0x09 \<or> c = CHR 0x0D \<or> c = CHR 0x0A"

definition skipSpace :: "string \<Rightarrow> string" where
  "skipSpace s = dropWhile isSpace s"

definition isHex :: "char \<Rightarrow> bool" where
  "isHex c \<longleftrightarrow> c \<in> set ''0123456789abcdefABCDEF''"

definition quoteChar :: char where
  "quoteChar = CHR 0x22"

definition backslash :: char where
  "backslash = CHR 0x5C"

fun scanString :: "string \<Rightarrow> (string \<times> string) option" where
  "scanString [] = None"
| "scanString (c # cs) =
     (if c = quoteChar then Some ([], cs)
      else if c = backslash then
        (case cs of
           [] \<Rightarrow> None
         | e # es \<Rightarrow>
             if e \<in> set [CHR ''b'', CHR ''f'', CHR ''n'', CHR ''r'', CHR ''t'',
                          backslash, CHR ''/'', quoteChar]
             then map_option (\<lambda>(b, r). (c # e # b, r)) (scanString es)
             else if e = CHR ''u'' then
               (case es of
                  h1 # h2 # h3 # h4 # r \<Rightarrow>
                    if isHex h1 \<and> isHex h2 \<and> isHex h3 \<and> isHex h4
                    then map_option (\<lambda>(b, r'). (c # e # h1 # h2 # h3 # h4 # b, r')) (scanString r)
                    else None
                | _ \<Rightarrow> None)
             else None)
      else if (of_char c :: nat) < 0x20 then None
      else map_option (\<lambda>(b, r). (c # b, r)) (scanString cs))"

text \<open>
  \<^const>\<open>scanString\<close> reads a string literal after its opening quote and returns the text
  between the quotes, escapes unresolved, and the input after the closing quote.
\<close>

definition scanInt :: "string \<Rightarrow> (string \<times> string) option" where
  \<comment> \<open>\<^verbatim>\<open>0\<close> or a digit 1-9 followed by digits\<close>
  "scanInt s =
     (case s of
        [] \<Rightarrow> None
      | d # ds \<Rightarrow>
          if \<not> isDigit d then None
          else if d = CHR ''0'' then Some ([d], ds)
          else Some (d # takeWhile isDigit ds, dropWhile isDigit ds))"

definition scanFrac :: "string \<Rightarrow> (string \<times> string) option" where
  \<comment> \<open>an optional fraction: a point and at least one digit\<close>
  "scanFrac s =
     (case s of
        [] \<Rightarrow> Some ([], s)
      | p # f \<Rightarrow>
          if p \<noteq> CHR ''.'' then Some ([], s)
          else if f \<noteq> [] \<and> isDigit (hd f)
          then Some (p # takeWhile isDigit f, dropWhile isDigit f)
          else None)"

definition scanExp :: "string \<Rightarrow> (string \<times> string) option" where
  \<comment> \<open>an optional exponent: e or E, an optional sign and at least one digit\<close>
  "scanExp s =
     (case s of
        [] \<Rightarrow> Some ([], s)
      | e # r \<Rightarrow>
          if e \<noteq> CHR ''e'' \<and> e \<noteq> CHR ''E'' then Some ([], s)
          else
            (let sg = (if r \<noteq> [] \<and> (hd r = CHR ''+'' \<or> hd r = CHR ''-'') then [hd r] else []);
                 r1 = drop (length sg) r
             in if r1 \<noteq> [] \<and> isDigit (hd r1)
                then Some (e # sg @ takeWhile isDigit r1, dropWhile isDigit r1)
                else None))"

definition scanNumber :: "string \<Rightarrow> (string \<times> string) option" where
  "scanNumber s =
     (let sg = (if s \<noteq> [] \<and> hd s = CHR ''-'' then ''-'' else [])
      in case scanInt (drop (length sg) s) of
        None \<Rightarrow> None
      | Some (ip, s1) \<Rightarrow>
          (case scanFrac s1 of
             None \<Rightarrow> None
           | Some (fp, s2) \<Rightarrow>
               (case scanExp s2 of
                  None \<Rightarrow> None
                | Some (ep, s3) \<Rightarrow> Some (sg @ ip @ fp @ ep, s3))))"

subsection \<open>package encoding/json: unquoting a string literal\<close>

definition hexVal :: "char \<Rightarrow> nat" where
  "hexVal c = (let n = of_char c in
     if 48 \<le> n \<and> n \<le> 57 then n - 48
     else if 97 \<le> n \<and> n \<le> 102 then n - 87
     else n - 55)"

definition getu4 :: "string \<Rightarrow> nat" where
  \<comment> \<open>the code unit of four hexadecimal digits\<close>
  "getu4 hs = foldl (\<lambda>a c. 16 * a + hexVal c) 0 (take 4 hs)"

definition encodeRune :: "nat \<Rightarrow> string" where
  \<comment> \<open>\<^verbatim>\<open>utf8.EncodeRune\<close>; a surrogate half is written as U+FFFD\<close>
  "encodeRune r =
     (if r < 0x80 then [char_of r]
      else if r < 0x800 then [char_of (0xC0 + r div 64), char_of (0x80 + r mod 64)]
      else if 0xD800 \<le> r \<and> r < 0xE000 then [CHR 0xEF, CHR 0xBF, CHR 0xBD]
      else if r < 0x10000 then
        [char_of (0xE0 + r div 4096), char_of (0x80 + (r div 64) mod 64), char_of (0x80 + r mod 64)]
      else
        [char_of (0xF0 + r div 262144), char_of (0x80 + (r div 4096) mod 64),
         char_of (0x80 + (r div 64) mod 64), char_of (0x80 + r mod 64)])"

definition isCont :: "char \<Rightarrow> bool" where
  "isCont c \<longleftrightarrow> 0x80 \<le> (of_char c :: nat) \<and> (of_char c :: nat) \<le> 0xBF"

definition utf8Len :: "string \<Rightarrow> nat" where
  \<comment> \<open>the length of the well-formed UTF-8 sequence (of two to four bytes) at the head of the
      input, or 0 when there is none\<close>
  "utf8Len s =
     (case s of
        [] \<Rightarrow> 0
      | c0 # r0 \<Rightarrow>
          (let b0 = (of_char c0 :: nat) in
           case r0 of
             [] \<Rightarrow> 0
           | c1 # r1 \<Rightarrow>
               (let b1 = (of_char c1 :: nat) in
                if 0xC2 \<le> b0 \<and> b0 \<le> 0xDF then (if isCont c1 then 2 else 0)
                else
                  (case r1 of
                     [] \<Rightarrow> 0
                   | c2 # r2 \<Rightarrow>
                       if 0xE0 \<le> b0 \<and> b0 \<le> 0xEF then
                         (if (if b0 = 0xE0 then 0xA0 \<le> b1 \<and> b1 \<le> 0xBF
                              else if b0 = 0xED then 0x80 \<le> b1 \<and> b1 \<le> 0x9F
                              else isCont c1) \<and> isCont c2
                          then 3 else 0)
                       else
                         (case r2 of
                            [] \<Rightarrow> 0
                          | c3 # r3 \<Rightarrow>
                              if 0xF0 \<le> b0 \<and> b0 \<le> 0xF4 then
                                (if (if b0 = 0xF0 then 0x90 \<le> b1 \<and> b1 \<le> 0xBF
                                     else if b0 = 0xF4 then 0x80 \<le> b1 \<and> b1 \<le> 0x8F
                                     else isCont c1) \<and> isCont c2 \<and> isCont c3
                                 then 4 else 0)
                              else 0)))))"

definition escapeChar :: "char \<Rightarrow> char" where
  "escapeChar e =
     (if e = CHR ''b'' then CHR 0x08 else if e = CHR ''f'' then CHR 0x0C
      else if e = CHR ''n'' then CHR 0x0A else if e = CHR ''r'' then CHR 0x0D
      else if e = CHR ''t'' then CHR 0x09 else e)"

definition lowSurrogateEscape :: "string \<Rightarrow> bool" where
  \<comment> \<open>the input starts with the escape of a low surrogate, the second half of a pair\<close>
  "lowSurrogateEscape s \<longleftrightarrow>
     6 \<le> length s \<and> s ! 0 = backslash \<and> s ! 1 = CHR ''u'' \<and> list_all isHex (take 4 (drop 2 s))
     \<and> 0xDC00 \<le> getu4 (drop 2 s) \<and> getu4 (drop 2 s) < 0xE000"

function unquote :: "string \<Rightarrow> string" where
  "unquote [] = []"
| "unquote (c # cs) =
     (if c = backslash then
        (if cs = [] then []
         else if hd cs = CHR ''u'' then
           (let rr = getu4 (tl cs); rest = drop 5 cs in
            if 0xD800 \<le> rr \<and> rr < 0xDC00 \<and> lowSurrogateEscape rest then
              encodeRune (0x10000 + (rr - 0xD800) * 1024 + (getu4 (drop 2 rest) - 0xDC00))
                @ unquote (drop 6 rest)
            else encodeRune rr @ unquote rest)
         else escapeChar (hd cs) # unquote (tl cs))
      else if (of_char c :: nat) < 0x80 then c # unquote cs
      else
        (let n = utf8Len (c # cs) in
         if n = 0 then encodeRune 0xFFFD @ unquote cs
         else take n (c # cs) @ unquote (drop n (c # cs))))"
  by pat_completeness auto
termination
  by (relation "measure length") (auto simp: less_Suc_eq_le)

declare unquote.simps(2) [simp del]

text \<open>
  \<^const>\<open>unquote\<close> is the decoder's \<^verbatim>\<open>unquoteBytes\<close> on the text between the quotes of a
  literal that the scanner has accepted: escapes are resolved, a surrogate pair becomes one
  rune, a lone surrogate and every byte that starts no well-formed UTF-8 sequence become
  U+FFFD.
\<close>

subsection \<open>package encoding/json: values\<close>

datatype 'a scan = Scanned 'a string | Invalid | OutOfFuel

definition maxNestingDepth :: nat where
  "maxNestingDepth = 10000"

fun parseValue :: "nat \<Rightarrow> nat \<Rightarrow> string \<Rightarrow> json scan"
  and parseElements :: "nat \<Rightarrow> nat \<Rightarrow> string \<Rightarrow> json list scan"
  and parseMembers :: "nat \<Rightarrow> nat \<Rightarrow> string \<Rightarrow> (string \<times> json) list scan"
where
  "parseValue 0 depth s = OutOfFuel"
| "parseValue (Suc n) depth s =
     (case s of
        [] \<Rightarrow> Invalid
      | c # cs \<Rightarrow>
          if c = CHR ''{'' then
            (if maxNestingDepth \<le> depth then Invalid
             else if skipSpace cs \<noteq> [] \<and> hd (skipSpace cs) = CHR ''}''
             then Scanned (JObject []) (tl (skipSpace cs))
             else
               (case parseMembers n (Suc depth) (skipSpace cs) of
                  Scanned kvs r \<Rightarrow> Scanned (JObject kvs) r
                | Invalid \<Rightarrow> Invalid
                | OutOfFuel \<Rightarrow> OutOfFuel))
          else if c = CHR ''['' then
            (if maxNestingDepth \<le> depth then Invalid
             else if skipSpace cs \<noteq> [] \<and> hd (skipSpace cs) = CHR '']''
             then Scanned (JArray []) (tl (skipSpace cs))
             else
               (case parseElements n (Suc depth) (skipSpace cs) of
                  Scanned vs r \<Rightarrow> Scanned (JArray vs) r
                | Invalid \<Rightarrow> Invalid
                | OutOfFuel \<Rightarrow> OutOfFuel))
          else if c = quoteChar then
            (case scanString cs of
               None \<Rightarrow> Invalid
             | Some (b, r) \<Rightarrow> Scanned (JString (unquote b)) r)
          else if c = CHR ''-'' \<or> isDigit c then
            (case scanNumber s of
               None \<Rightarrow> Invalid
             | Some (lit, r) \<Rightarrow> Scanned (JNumber lit) r)
          else if take 4 s = ''true'' then Scanned (JBool True) (drop 4 s)
          else if take 5 s = ''false'' then Scanned (JBool False) (drop 5 s)
          else if take 4 s = ''null'' then Scanned JNull (drop 4 s)
          else Invalid)"
| "parseElements 0 depth s = OutOfFuel"
| "parseElements (Suc n) depth s =
     (case parseValue n depth s of
        Invalid \<Rightarrow> Invalid
      | OutOfFuel \<Rightarrow> OutOfFuel
      | Scanned v r \<Rightarrow>
          (case skipSpace r of
             [] \<Rightarrow> Invalid
           | c # r' \<Rightarrow>
               if c = CHR '']'' then Scanned [v] r'
               else if c = CHR '','' then
                 (case parseElements n depth (skipSpace r') of
                    Scanned vs r'' \<Rightarrow> Scanned (v # vs) r''
                  | Invalid \<Rightarrow> Invalid
                  | OutOfFuel \<Rightarrow> OutOfFuel)
               else Invalid))"
| "parseMembers 0 depth s = OutOfFuel"
| "parseMembers (Suc n) depth s =
     (case s of
        [] \<Rightarrow> Invalid
      | q # cs \<Rightarrow>
          if q \<noteq> quoteChar then Invalid
          else
            (case scanString cs of
               None \<Rightarrow> Invalid
             | Some (b, r) \<Rightarrow>
                 (case skipSpace r of
                    [] \<Rightarrow> Invalid
                  | c # r1 \<Rightarrow>
                      if c \<noteq> CHR '':'' then Invalid
                      else
                        (case parseValue n depth (skipSpace r1) of
                           Invalid \<Rightarrow> Invalid
                         | OutOfFuel \<Rightarrow> OutOfFuel
                         | Scanned v r2 \<Rightarrow>
                             (case skipSpace r2 of
                                [] \<Rightarrow> Invalid
                              | d # r3 \<Rightarrow>
                                  if d = CHR ''}'' then Scanned [(unquote b, v)] r3
                                  else if d = CHR '','' then
                                    (case parseMembers n depth (skipSpace r3) of
                                       Scanned kvs r4 \<Rightarrow> Scanned ((unquote b, v) # kvs) r4
                                     | Invalid \<Rightarrow> Invalid
                                     | OutOfFuel \<Rightarrow> OutOfFuel)
                                  else Invalid)))))"

definition parseJSON :: "string \<Rightarrow> json option" where
  \<comment> \<open>one value with white space around it and nothing else; \<^const>\<open>None\<close> is the
      \<^verbatim>\<open>SyntaxError\<close> of \<^verbatim>\<open>checkValid\<close>. The fuel is never used up, see
      \<open>parseJSON_fuel\<close>.\<close>
  "parseJSON data =
     (case parseValue (Suc (2 * length data)) 0 (skipSpace data) of
        Scanned v r \<Rightarrow> if skipSpace r = [] then Some v else None
      | _ \<Rightarrow> None)"

subsection \<open>package encoding/json: decoding into the fields of a struct\<close>

datatype DecodeError = CorruptInputError | SyntaxError | UnmarshalTypeError

definition foldName :: "string \<Rightarrow> string" where
  \<comment> \<open>the decoder's case folding of a name: ASCII letters to upper case. (Go also folds
      the runes beyond ASCII; none of them folds to a letter of the names used here.)\<close>
  "foldName s =
     map (\<lambda>c. if 97 \<le> (of_char c :: nat) \<and> (of_char c :: nat) \<le> 122
               then char_of ((of_char c :: nat) - 32) else c) s"

definition findField :: "string list \<Rightarrow> string \<Rightarrow> string option" where
  \<comment> \<open>the field for a member's name: the field of exactly this name, or else the first
      one that is equal to it up to case\<close>
  "findField names key =
     (if key \<in> set names then Some key
      else find (\<lambda>n. foldName n = foldName key) names)"

fun storeInt64 :: "json \<Rightarrow> int64 \<Rightarrow> DecodeError + int64" where
  "storeInt64 JNull old = Inr old"
| "storeInt64 (JNumber lit) old =
     (case ParseInt lit of None \<Rightarrow> Inl UnmarshalTypeError | Some n \<Rightarrow> Inr n)"
| "storeInt64 _ old = Inl UnmarshalTypeError"

fun storePtrInt64 :: "json \<Rightarrow> int64 option \<Rightarrow> DecodeError + int64 option" where
  "storePtrInt64 JNull old = Inr None"
| "storePtrInt64 (JNumber lit) old =
     (case ParseInt lit of None \<Rightarrow> Inl UnmarshalTypeError | Some n \<Rightarrow> Inr (Some n))"
| "storePtrInt64 _ old = Inl UnmarshalTypeError"

text \<open>
  A value stored into an \<^verbatim>\<open>int64\<close> or \<^verbatim>\<open>int\<close> field: \<^verbatim>\<open>null\<close> leaves the field as it
  is, a number must be the decimal literal of an int64, anything else is an
  \<^verbatim>\<open>UnmarshalTypeError\<close>. Into an \<^verbatim>\<open>*int64\<close> field \<^verbatim>\<open>null\<close> stores the nil pointer.
  The decoder records the first such error, goes on, and returns it at the end; the callers
  below drop the struct when there is an error, so the model stops at the first one.
\<close>

record nextPageFields =
  np_t :: int64
  np_o :: int64
  np_u :: "int64 option"
  np_v :: int64

record syncFields =
  sy_t :: int64
  sy_v :: int64

fun objectNextPage :: "(string \<times> json) list \<Rightarrow> nextPageFields \<Rightarrow> DecodeError + nextPageFields" where
  "objectNextPage [] v = Inr v"
| "objectNextPage ((key, x) # kvs) v =
     (case findField [''t'', ''o'', ''u'', ''v''] key of
        None \<Rightarrow> objectNextPage kvs v
      | Some f \<Rightarrow>
          if f = ''t'' then
            (case storeInt64 x (np_t v) of
               Inl e \<Rightarrow> Inl e | Inr n \<Rightarrow> objectNextPage kvs (v\<lparr>np_t := n\<rparr>))
          else if f = ''o'' then
            (case storeInt64 x (np_o v) of
               Inl e \<Rightarrow> Inl e | Inr n \<Rightarrow> objectNextPage kvs (v\<lparr>np_o := n\<rparr>))
          else if f = ''u'' then
            (case storePtrInt64 x (np_u v) of
               Inl e \<Rightarrow> Inl e | Inr n \<Rightarrow> objectNextPage kvs (v\<lparr>np_u := n\<rparr>))
          else
            (case storeInt64 x (np_v v) of
               Inl e \<Rightarrow> Inl e | Inr n \<Rightarrow> objectNextPage kvs (v\<lparr>np_v := n\<rparr>)))"

fun objectSync :: "(string \<times> json) list \<Rightarrow> syncFields \<Rightarrow> DecodeError + syncFields" where
  "objectSync [] v = Inr v"
| "objectSync ((key, x) # kvs) v =
     (case findField [''t'', ''v''] key of
        None \<Rightarrow> objectSync kvs v
      | Some f \<Rightarrow>
          if f = ''t'' then
            (case storeInt64 x (sy_t v) of
               Inl e \<Rightarrow> Inl e | Inr n \<Rightarrow> objectSync kvs (v\<lparr>sy_t := n\<rparr>))
          else
            (case storeInt64 x (sy_v v) of
               Inl e \<Rightarrow> Inl e | Inr n \<Rightarrow> objectSync kvs (v\<lparr>sy_v := n\<rparr>)))"

definition unmarshalNextPage :: "string \<Rightarrow> DecodeError + nextPageFields" where
  \<comment> \<open>\<^verbatim>\<open>json.Unmarshal(data, &v)\<close> for the struct declared in
      \<^verbatim>\<open>NextPageToken.UnmarshalJSON\<close>, \<^verbatim>\<open>v\<close> being its zero value\<close>
  "unmarshalNextPage data =
     (let v = \<lparr>np_t = 0, np_o = 0, np_u = None, np_v = 0\<rparr> in
      case parseJSON data of
        None \<Rightarrow> Inl SyntaxError
      | Some JNull \<Rightarrow> Inr v
      | Some (JObject kvs) \<Rightarrow> objectNextPage kvs v
      | Some _ \<Rightarrow> Inl UnmarshalTypeError)"

definition unmarshalSync :: "string \<Rightarrow> DecodeError + syncFields" where
  \<comment> \<open>the same for the struct declared in \<^verbatim>\<open>SyncToken.UnmarshalJSON\<close>\<close>
  "unmarshalSync data =
     (let v = \<lparr>sy_t = 0, sy_v = 0\<rparr> in
      case parseJSON data of
        None \<Rightarrow> Inl SyntaxError
      | Some JNull \<Rightarrow> Inr v
      | Some (JObject kvs) \<Rightarrow> objectSync kvs v
      | Some _ \<Rightarrow> Inl UnmarshalTypeError)"

definition marshalMember :: "string \<times> int64 \<Rightarrow> string" where
  "marshalMember m = [quoteChar] @ fst m @ [quoteChar] @ '':'' @ FormatInt (snd m)"

fun marshalMembers :: "(string \<times> int64) list \<Rightarrow> string" where
  "marshalMembers [] = []"
| "marshalMembers [m] = marshalMember m"
| "marshalMembers (m # ms) = marshalMember m @ '','' @ marshalMembers ms"

definition marshalObject :: "(string \<times> int64) list \<Rightarrow> string" where
  \<comment> \<open>\<^verbatim>\<open>json.Marshal\<close> of a struct or map whose values are integers and whose names need no
      escaping, the members given in the order they are written\<close>
  "marshalObject ms = ''{'' @ marshalMembers ms @ ''}''"

subsection \<open>The tokens (main.go, lines 274-379)\<close>

record NextPageToken =
  Timestamp :: Time
  UpdatedAfter :: Time
  Offset :: int64
  ValidUntil :: Time

record SyncToken =
  syncTimestamp :: Time
  syncValidUntil :: Time

definition nextPageJSON :: "NextPageToken \<Rightarrow> string" where
  \<comment> \<open>lines 286-296: the map and its \<^verbatim>\<open>json.Marshal\<close>, which writes the entries of a map
      in the order of their keys\<close>
  "nextPageJSON t =
     marshalObject
       ([(''o'', Offset t), (''t'', Unix (Timestamp t))]
        @ (if \<not> IsZero (UpdatedAfter t) then [(''u'', Unix (UpdatedAfter t))] else [])
        @ [(''v'', Unix (ValidUntil t))])"

definition nextPageText :: "NextPageToken \<Rightarrow> string" where
  \<comment> \<open>the token as the client holds it: the base64 text between the quotes\<close>
  "nextPageText t = b64Encode (nextPageJSON t)"

definition NextPageToken_MarshalJSON :: "NextPageToken option \<Rightarrow> string" where
  \<comment> \<open>lines 281-307; the receiver is a pointer, \<^const>\<open>None\<close> is nil\<close>
  "NextPageToken_MarshalJSON p =
     (case p of
        None \<Rightarrow> [quoteChar, quoteChar]
      | Some t \<Rightarrow> [quoteChar] @ nextPageText t @ [quoteChar])"

definition NextPageToken_UnmarshalJSON :: "NextPageToken \<Rightarrow> string \<Rightarrow> DecodeError + NextPageToken" where
  \<comment> \<open>lines 309-332; the receiver is returned updated, and is not touched on an error\<close>
  "NextPageToken_UnmarshalJSON t data =
     (case b64Decode data of
        None \<Rightarrow> Inl CorruptInputError
      | Some buf \<Rightarrow>
          (case unmarshalNextPage buf of
             Inl e \<Rightarrow> Inl e
           | Inr v \<Rightarrow>
               Inr (t\<lparr>Timestamp := time_Unix (np_t v),
                      Offset := np_o v,
                      UpdatedAfter := (case np_u v of
                                         Some u \<Rightarrow> time_Unix u
                                       | None \<Rightarrow> UpdatedAfter t),
                      ValidUntil := time_Unix (np_v v)\<rparr>)))"

definition syncJSON :: "SyncToken \<Rightarrow> string" where
  \<comment> \<open>lines 343-349\<close>
  "syncJSON t =
     marshalObject [(''t'', Unix (syncTimestamp t)), (''v'', Unix (syncValidUntil t))]"

definition syncText :: "SyncToken \<Rightarrow> string" where
  "syncText t = b64Encode (syncJSON t)"

definition SyncToken_MarshalJSON :: "SyncToken option \<Rightarrow> string" where
  \<comment> \<open>lines 339-360\<close>
  "SyncToken_MarshalJSON p =
     (case p of
        None \<Rightarrow> [quoteChar, quoteChar]
      | Some t \<Rightarrow> [quoteChar] @ syncText t @ [quoteChar])"

definition SyncToken_UnmarshalJSON :: "SyncToken \<Rightarrow> string \<Rightarrow> DecodeError + SyncToken" where
  \<comment> \<open>lines 362-379\<close>
  "SyncToken_UnmarshalJSON t data =
     (case b64Decode data of
        None \<Rightarrow> Inl CorruptInputError
      | Some buf \<Rightarrow>
          (case unmarshalSync buf of
             Inl e \<Rightarrow> Inl e
           | Inr v \<Rightarrow>
               Inr (t\<lparr>syncTimestamp := time_Unix (sy_t v),
                      syncValidUntil := time_Unix (sy_v v)\<rparr>)))"

definition zeroNextPageToken :: NextPageToken where
  \<comment> \<open>\<^verbatim>\<open>&NextPageToken{}\<close>\<close>
  "zeroNextPageToken =
     \<lparr>Timestamp = zeroTime, UpdatedAfter = zeroTime, Offset = 0, ValidUntil = zeroTime\<rparr>"

definition zeroSyncToken :: SyncToken where
  \<comment> \<open>\<^verbatim>\<open>&SyncToken{}\<close>\<close>
  "zeroSyncToken = \<lparr>syncTimestamp = zeroTime, syncValidUntil = zeroTime\<rparr>"

subsection \<open>The list handler (main.go, lines 49-203)\<close>

record User =
  ID :: string
  Name :: string
  Email :: string
  CreatedAt :: string
  UpdatedAt :: string

record ListResponse =
  users :: "User list"
  next_page_token :: "NextPageToken option"
  sync_token :: "SyncToken option"

text \<open>
  The request as the handler reads it: the values \<^verbatim>\<open>r.URL.Query().Get\<close> returns for the
  three parameters, the empty string for a parameter that is not given.
\<close>

record Request =
  q_sync_token :: string
  q_next_page_token :: string
  q_max_results :: string

text \<open>
  The readings of \<^verbatim>\<open>time.Now()\<close> during one request, in the order they are taken: at
  line 92, at the expiry check (line 106 or 122), and when the new token is made (line 183
  or 189); and \<^verbatim>\<open>time.Local\<close>, the location of the process, in which \<^verbatim>\<open>time.Now()\<close> and
  \<^verbatim>\<open>time.Unix\<close> give their results.
\<close>

record Clock =
  now_start :: Time
  now_expiry :: Time
  now_issue :: Time
  time_Local :: Location

text \<open>
  The statement sent to the database: the first one of lines 144-149 when \<open>updated_after\<close>
  is \<^const>\<open>None\<close>, the one with \<^verbatim>\<open>WHERE updated_at > ?\<close> of lines 151-157 otherwise. The
  snapshot time goes out as text in the layout \<^verbatim>\<open>time.DateTime\<close>, which has whole seconds
  and is written in the location of the time value: \<open>as_of\<close> is that text. The time of the
  filter is handed to the driver as a \<^verbatim>\<open>time.Time\<close>.
  The database is a parameter of the handler; it answers with the rows scanned, or with
  \<^const>\<open>None\<close> when \<^verbatim>\<open>db.Query\<close>, \<^verbatim>\<open>rows.Scan\<close> or \<^verbatim>\<open>rows.Err\<close> returns an error.
\<close>

record Query =
  as_of :: string
  updated_after :: "Time option"
  limit :: int64
  skip :: int64

type_synonym DB = "Query \<Rightarrow> User list option"

datatype Body = ErrorText DecodeError | Text string | QueryError | Listing ListResponse

record Response =
  status :: nat
  body :: Body

definition StatusOK :: nat where "StatusOK = 200"
definition StatusBadRequest :: nat where "StatusBadRequest = 400"
definition StatusInternalServerError :: nat where "StatusInternalServerError = 500"

text \<open>
  The local variables of the handler that lines 92-132 set. \<open>tableLocation\<close> is the location
  of the value in \<^verbatim>\<open>tableInPointOfTime\<close>: UTC for the value of line 92, which is made by
  \<^verbatim>\<open>time.Now().UTC()\<close>, and the location of the process for the one of line 127, which
  \<^verbatim>\<open>UnmarshalJSON\<close> made by \<^verbatim>\<open>time.Unix\<close> (line 325).
\<close>

record Vars =
  tableInPointOfTime :: Time
  tableLocation :: Location
  onlyNewerThan :: Time
  offset :: int64
  nextPageToken :: "NextPageToken option"
  syncToken :: "SyncToken option"

definition readCursor :: "Clock \<Rightarrow> Request \<Rightarrow> Response + Vars" where
  \<comment> \<open>lines 92-132; \<^const>\<open>Inl\<close> is the response of an early return\<close>
  "readCursor clk r =
     (let vars = \<lparr>tableInPointOfTime = now_start clk, tableLocation = utcLoc,
                  onlyNewerThan = zeroTime, offset = 0,
                  nextPageToken = None, syncToken = None\<rparr>
      in if q_sync_token r \<noteq> [] then
           (case SyncToken_UnmarshalJSON zeroSyncToken (q_sync_token r) of
              Inl err \<Rightarrow> Inl \<lparr>status = StatusBadRequest, body = ErrorText err\<rparr>
            | Inr tok \<Rightarrow>
                if Before (syncValidUntil tok) (now_expiry clk)
                then Inl \<lparr>status = StatusBadRequest, body = Text ''sync token expired''\<rparr>
                else Inr (vars\<lparr>onlyNewerThan := syncTimestamp tok, offset := 0,
                               syncToken := None, nextPageToken := None\<rparr>))
         else if q_next_page_token r \<noteq> [] then
           (case NextPageToken_UnmarshalJSON zeroNextPageToken (q_next_page_token r) of
              Inl err \<Rightarrow> Inl \<lparr>status = StatusBadRequest, body = ErrorText err\<rparr>
            | Inr tok \<Rightarrow>
                if Before (ValidUntil tok) (now_expiry clk)
                then Inl \<lparr>status = StatusBadRequest, body = Text ''next page token expired''\<rparr>
                else Inr (vars\<lparr>tableInPointOfTime := Timestamp tok,
                               tableLocation := time_Local clk,
                               onlyNewerThan := UpdatedAfter tok, offset := Offset tok,
                               syncToken := None, nextPageToken := None\<rparr>))
         else Inr vars)"

definition readMaxResults :: "Request \<Rightarrow> int64" where
  \<comment> \<open>lines 134-139\<close>
  "readMaxResults r =
     (if q_max_results r \<noteq> [] then
        (case ParseInt (q_max_results r) of Some n \<Rightarrow> n | None \<Rightarrow> 10)
      else 10)"

definition buildQuery :: "Vars \<Rightarrow> int64 \<Rightarrow> Query" where
  \<comment> \<open>lines 143-158\<close>
  "buildQuery vars maxResults =
     (if IsZero (onlyNewerThan vars) then
        \<lparr>as_of = Format_DateTime (tableLocation vars) (tableInPointOfTime vars),
         updated_after = None, limit = maxResults, skip = offset vars\<rparr>
      else
        \<lparr>as_of = Format_DateTime (tableLocation vars) (tableInPointOfTime vars),
         updated_after = Some (onlyNewerThan vars),
         limit = maxResults, skip = offset vars\<rparr>)"

definition continuation :: "Clock \<Rightarrow> Vars \<Rightarrow> int64 \<Rightarrow> User list \<Rightarrow> Vars" where
  \<comment> \<open>lines 182-191\<close>
  "continuation clk vars maxResults us =
     (if length us = 0 \<or> int (length us) < sint maxResults then
        vars\<lparr>syncToken := Some \<lparr>syncTimestamp = tableInPointOfTime vars,
                                syncValidUntil =
                                  AddDate_0_0_1 (time_Local clk) (now_issue clk)\<rparr>\<rparr>
      else
        vars\<lparr>nextPageToken := Some \<lparr>Timestamp = tableInPointOfTime vars,
                                    UpdatedAfter = onlyNewerThan vars,
                                    Offset = offset vars + of_nat (length us),
                                    ValidUntil =
                                      AddDate_0_0_1 (time_Local clk) (now_issue clk)\<rparr>\<rparr>)"

definition listHandler :: "DB \<Rightarrow> Clock \<Rightarrow> Request \<Rightarrow> Response" where
  "listHandler db clk r =
     (case readCursor clk r of
        Inl resp \<Rightarrow> resp
      | Inr vars \<Rightarrow>
          (let maxResults = readMaxResults r in
           case db (buildQuery vars maxResults) of
             None \<Rightarrow> \<lparr>status = StatusInternalServerError, body = QueryError\<rparr>
           | Some us \<Rightarrow>
               (let vars' = continuation clk vars maxResults us in
                \<lparr>status = StatusOK,
                 body = Listing \<lparr>users = us, next_page_token = nextPageToken vars',
                                 sync_token = syncToken vars'\<rparr>\<rparr>)))"

text \<open>
  A database for the examples: the rows of the table in the order of their names, the same
  at every time, none of them updated after any time asked for; it honours \<^verbatim>\<open>LIMIT\<close> and
  \<^verbatim>\<open>OFFSET\<close> and rejects a negative one.
\<close>

definition tableDB :: "User list \<Rightarrow> DB" where
  "tableDB rows q =
     (if sint (limit q) < 0 \<or> sint (skip q) < 0 then None
      else case updated_after q of
        None \<Rightarrow> Some (take (nat (sint (limit q))) (drop (nat (sint (skip q))) rows))
      | Some _ \<Rightarrow> Some [])"

definition someUser :: User where
  "someUser = \<lparr>ID = ''1'', Name = ''User01'', Email = ''user01@example.com'',
               CreatedAt = ''2024-01-01 00:00:00'', UpdatedAt = ''2024-01-01 00:00:00''\<rparr>"

subsection \<open>Example inputs\<close>

definition zonePlusOne :: Location where
  \<comment> \<open>for the examples: a zone one hour east of UTC without clock changes\<close>
  "zonePlusOne = (\<lambda>_. (3600, - 9223372036854775808, 9223372036854775807))"

definition clock0 :: Clock where
  "clock0 = \<lparr>now_start = \<lparr>sec = 63835596800, nsec = 5\<rparr>,
             now_expiry = \<lparr>sec = 63835596800, nsec = 6\<rparr>,
             now_issue = \<lparr>sec = 63835596800, nsec = 7\<rparr>,
             time_Local = zonePlusOne\<rparr>"

definition noCursor :: "string \<Rightarrow> Request" where
  \<comment> \<open>a request without a token; the argument is the \<^verbatim>\<open>max_results\<close> parameter\<close>
  "noCursor m = \<lparr>q_sync_token = [], q_next_page_token = [], q_max_results = m\<rparr>"

definition syncRequest :: "string \<Rightarrow> Request" where
  "syncRequest tok = \<lparr>q_sync_token = tok, q_next_page_token = [], q_max_results = []\<rparr>"

definition nextPageRequest :: "string \<Rightarrow> string \<Rightarrow> Request" where
  "nextPageRequest tok m = \<lparr>q_sync_token = [], q_next_page_token = tok, q_max_results = m\<rparr>"

text \<open>
  Token texts, with the JSON they are the base64 text of. The clock of \<^const>\<open>clock0\<close>
  stands at Unix time 1700000000.
\<close>

definition syncTextLive :: string where
  \<comment> \<open>\<^verbatim>\<open>{"t":1700000000,"v":1700086400}\<close>\<close>
  "syncTextLive = ''eyJ0IjoxNzAwMDAwMDAwLCJ2IjoxNzAwMDg2NDAwfQ==''"

definition syncTextExpired :: string where
  \<comment> \<open>\<^verbatim>\<open>{"t":1700000000,"v":1600000000}\<close>\<close>
  "syncTextExpired = ''eyJ0IjoxNzAwMDAwMDAwLCJ2IjoxNjAwMDAwMDAwfQ==''"

definition syncTextZero :: string where
  \<comment> \<open>\<^verbatim>\<open>{"t":-62135596800,"v":1700086400}\<close>\<close>
  "syncTextZero = ''eyJ0IjotNjIxMzU1OTY4MDAsInYiOjE3MDAwODY0MDB9''"

definition nextPageTextLive :: string where
  \<comment> \<open>\<^verbatim>\<open>{"o":1,"t":1700000000,"v":1700086400}\<close>\<close>
  "nextPageTextLive = ''eyJvIjoxLCJ0IjoxNzAwMDAwMDAwLCJ2IjoxNzAwMDg2NDAwfQ==''"

definition nextPageTextFiltered :: string where
  \<comment> \<open>\<^verbatim>\<open>{"o":7,"t":1700000000,"u":1690000000,"v":1700086400}\<close>\<close>
  "nextPageTextFiltered =
     ''eyJvIjo3LCJ0IjoxNzAwMDAwMDAwLCJ1IjoxNjkwMDAwMDAwLCJ2IjoxNzAwMDg2NDAwfQ==''"

definition nextPageTextExpired :: string where
  \<comment> \<open>\<^verbatim>\<open>{"o":1,"t":1700000000,"v":1600000000}\<close>\<close>
  "nextPageTextExpired = ''eyJvIjoxLCJ0IjoxNzAwMDAwMDAwLCJ2IjoxNjAwMDAwMDAwfQ==''"

definition nextPageTextMissing :: string where
  \<comment> \<open>\<^verbatim>\<open>{"t":1700000000,"v":1700086400}\<close>, the text of a sync token: no member \<^verbatim>\<open>o\<close>\<close>
  "nextPageTextMissing = ''eyJ0IjoxNzAwMDAwMDAwLCJ2IjoxNzAwMDg2NDAwfQ==''"

definition syncTextNull :: string where
  \<comment> \<open>\<^verbatim>\<open>null\<close>\<close>
  "syncTextNull = ''bnVsbA==''"

definition syncTextWrongType :: string where
  \<comment> \<open>\<^verbatim>\<open>{"T":"1"}\<close>\<close>
  "syncTextWrongType = ''eyJUIjoiMSJ9''"

subsection \<open>Auxiliary notions\<close>

definition numberEnd :: "string \<Rightarrow> bool" where
  \<comment> \<open>what follows a number inside an object\<close>
  "numberEnd rest \<longleftrightarrow> rest = [] \<or> (hd rest = CHR '','' \<or> hd rest = CHR ''}'')"

definition plainChar :: "char \<Rightarrow> bool" where
  \<comment> \<open>an ASCII character that stands for itself in a string literal\<close>
  "plainChar c \<longleftrightarrow>
     c \<noteq> quoteChar \<and> c \<noteq> backslash \<and> 0x20 \<le> (of_char c :: nat) \<and> (of_char c :: nat) < 0x80"

definition numberMembers :: "(string \<times> int64) list \<Rightarrow> (string \<times> json) list" where
  "numberMembers ms = map (\<lambda>m. (fst m, JNumber (FormatInt (snd m)))) ms"

definition lowByte :: "char \<Rightarrow> bool" where
  \<comment> \<open>a byte below 128 whose low six bits are neither 62 nor 63\<close>
  "lowByte c \<longleftrightarrow> (of_char c :: nat) < 128 \<and> (of_char c :: nat) mod 64 < 62"

subsection \<open>package net/url: reading a query parameter\<close>

text \<open>
  The handler reads its parameters with \<^verbatim>\<open>r.URL.Query().Get(name)\<close> (lines 99, 115 and
  135). \<^verbatim>\<open>Query\<close> parses the raw query: the pairs are separated by \<^verbatim>\<open>&\<close>, a pair with a
  semicolon is dropped, name and value are separated by the first \<^verbatim>\<open>=\<close> and both are
  unescaped, where \<^verbatim>\<open>+\<close> stands for a space and \<^verbatim>\<open>%\<close> starts an escape of two hexadecimal
  digits; a pair with a wrong escape is dropped. \<^verbatim>\<open>Get\<close> returns the first value given for
  the name, or the empty string.
\<close>

definition cut :: "char \<Rightarrow> string \<Rightarrow> string \<times> string" where
  \<comment> \<open>\<^verbatim>\<open>strings.Cut\<close>: the text before the first separator and the text after it\<close>
  "cut sep s = (takeWhile (\<lambda>c. c \<noteq> sep) s, drop 1 (dropWhile (\<lambda>c. c \<noteq> sep) s))"

fun queryUnescape :: "string \<Rightarrow> string option" where
  "queryUnescape [] = Some []"
| "queryUnescape (c # cs) =
     (if c = CHR ''%'' then
        (case cs of
           h1 # h2 # r \<Rightarrow>
             if isHex h1 \<and> isHex h2
             then map_option ((#) (char_of (16 * hexVal h1 + hexVal h2))) (queryUnescape r)
             else None
         | _ \<Rightarrow> None)
      else if c = CHR ''+'' then map_option ((#) (CHR '' '')) (queryUnescape cs)
      else map_option ((#) c) (queryUnescape cs))"

function parseQuery :: "string \<Rightarrow> (string \<times> string) list" where
  "parseQuery q =
     (if q = [] then []
      else
        (let key = fst (cut (CHR ''&'') q); rest = snd (cut (CHR ''&'') q) in
         if CHR '';'' \<in> set key \<or> key = [] then parseQuery rest
         else
           (case (queryUnescape (fst (cut (CHR ''='') key)),
                  queryUnescape (snd (cut (CHR ''='') key))) of
              (Some k, Some v) \<Rightarrow> (k, v) # parseQuery rest
            | _ \<Rightarrow> parseQuery rest)))"
  by pat_completeness auto
termination
proof -
  have shorter: "length (snd (cut sep q)) < length q" if "q \<noteq> []" for sep and q :: string
  proof -
    have "length (dropWhile (\<lambda>c. c \<noteq> sep) q) \<le> length q"
      by (rule length_dropWhile_le)
    with that show ?thesis
      by (cases q) (auto simp: cut_def)
  qed
  show ?thesis
    by (relation "measure length") (auto simp: shorter)
qed

declare parseQuery.simps [simp del]

definition Query_Get :: "string \<Rightarrow> string \<Rightarrow> string" where
  "Query_Get rawQuery name =
     (case filter (\<lambda>p. fst p = name) (parseQuery rawQuery) of
        [] \<Rightarrow> []
      | p # _ \<Rightarrow> snd p)"

definition requestOf :: "string \<Rightarrow> Request" where
  \<comment> \<open>the request with this raw query, as lines 99, 115 and 135 read it\<close>
  "requestOf rawQuery =
     \<lparr>q_sync_token = Query_Get rawQuery ''sync_token'',
      q_next_page_token = Query_Get rawQuery ''next_page_token'',
      q_max_results = Query_Get rawQuery ''max_results''\<rparr>"

definition queryValueSafe :: "char \<Rightarrow> bool" where
  \<comment> \<open>The characters that may stand unescaped in the value of a query parameter: those
      RFC 3986 allows in a query (letters, digits, \<^verbatim>\<open>-._~\<close>, \<^verbatim>\<open>!$'()*,=\<close>, \<^verbatim>\<open>:@/?\<close>)
      without \<^verbatim>\<open>&\<close>, which ends the value, \<^verbatim>\<open>;\<close>, for which the pair is dropped, and
      \<^verbatim>\<open>+\<close>, which is read as a space.\<close>
  "queryValueSafe c \<longleftrightarrow>
     c \<in> set (take 62 encodeStd) \<or> c \<in> set ''-._~!$()*,=:@/?'' \<or> c = CHR 0x27"

subsection \<open>Values that fit the struct of a token\<close>

fun fitsInt64 :: "json \<Rightarrow> bool" where
  "fitsInt64 JNull = True"
| "fitsInt64 (JNumber lit) = (ParseInt lit \<noteq> None)"
| "fitsInt64 _ = False"

definition fitsStruct :: "string list \<Rightarrow> json \<Rightarrow> bool" where
  \<comment> \<open>the value is \<^verbatim>\<open>null\<close>, or an object in which every member that names a field of the
      struct holds \<^verbatim>\<open>null\<close> or the decimal literal of an int64\<close>
  "fitsStruct names j =
     (case j of
        JNull \<Rightarrow> True
      | JObject kvs \<Rightarrow> list_all (\<lambda>kv. findField names (fst kv) = None \<or> fitsInt64 (snd kv)) kvs
      | _ \<Rightarrow> False)"

section \<open>Properties\<close>

subsection \<open>The next calendar day\<close>

text \<open>
  In a location whose offset never changes the next calendar day is 86400 seconds later.
  Across a change of the offset it is not: with the clock set back by an hour in between,
  the same clock reading on the next day comes 25 hours later.
\<close>

lemma AddDate_fixed_zone:
  assumes "\<And>u. l u = (off, s, e)"
  shows "AddDate_0_0_1 l t = t\<lparr>sec := sec t + 86400\<rparr>"
  by (simp add: AddDate_0_0_1_def Unix_def assms Let_def)

lemma AddDate_clock_change:
  "AddDate_0_0_1 (\<lambda>u. if sint u < 1700050000 then (7200, - 9223372036854775808, 1700050000)
                         else (3600, 1700050000, 9223372036854775807))
     \<lparr>sec = 63835596800, nsec = 7\<rparr> = \<lparr>sec = 63835596800 + 90000, nsec = 7\<rparr>"
  by (simp add: AddDate_0_0_1_def Unix_def unixToInternal_def Let_def)

subsection \<open>The shape of a successful response\<close>

lemma listHandler_ok:
  assumes "status (listHandler db clk r) = StatusOK"
  obtains vars us where "readCursor clk r = Inr vars"
    and "nextPageToken vars = None" and "syncToken vars = None"
    and "db (buildQuery vars (readMaxResults r)) = Some us"
    and "listHandler db clk r =
      \<lparr>status = StatusOK,
       body = Listing \<lparr>users = us,
         next_page_token = nextPageToken (continuation clk vars (readMaxResults r) us),
         sync_token = syncToken (continuation clk vars (readMaxResults r) us)\<rparr>\<rparr>"
  using assms
  by (auto simp: listHandler_def readCursor_def Let_def StatusOK_def StatusBadRequest_def
      StatusInternalServerError_def split: sum.splits option.splits if_splits)

text \<open>
  C1. Every response with status 200 carries a listing in which exactly one of
  \<open>next_page_token\<close> and \<open>sync_token\<close> is present, whatever the request's
  \<open>max_results\<close> and cursor are and whatever the database answers.
\<close>

theorem exactly_one_continuation:
  assumes "status (listHandler db clk r) = StatusOK"
  shows "\<exists>lr. body (listHandler db clk r) = Listing lr
    \<and> ((next_page_token lr \<noteq> None) \<noteq> (sync_token lr \<noteq> None))"
proof -
  from assms obtain vars us where v: "nextPageToken vars = None" "syncToken vars = None"
    and r: "listHandler db clk r =
      \<lparr>status = StatusOK,
       body = Listing \<lparr>users = us,
         next_page_token = nextPageToken (continuation clk vars (readMaxResults r) us),
         sync_token = syncToken (continuation clk vars (readMaxResults r) us)\<rparr>\<rparr>"
    by (rule listHandler_ok)
  show ?thesis
    unfolding r using v by (simp add: continuation_def)
qed

theorem exactly_one_continuation_witness:
  "status (listHandler (tableDB [someUser]) clock0 (noCursor [])) = StatusOK
   \<and> (\<exists>lr. body (listHandler (tableDB [someUser]) clock0 (noCursor [])) = Listing lr
    \<and> ((next_page_token lr \<noteq> None) \<noteq> (sync_token lr \<noteq> None)))"
proof -
  have h: "status (listHandler (tableDB [someUser]) clock0 (noCursor [])) = StatusOK"
    by (simp add: listHandler_def readCursor_def noCursor_def readMaxResults_def
        buildQuery_def tableDB_def IsZero_def zeroTime_def Let_def)
  from exactly_one_continuation [OF h] h show ?thesis by simp
qed

subsection \<open>The example tokens decoded\<close>

lemma syncTextLive_decoded:
  "SyncToken_UnmarshalJSON zeroSyncToken syncTextLive =
     Inr \<lparr>syncTimestamp = \<lparr>sec = 63835596800, nsec = 0\<rparr>,
          syncValidUntil = \<lparr>sec = 63835683200, nsec = 0\<rparr>\<rparr>"
  by code_simp

lemma syncTextExpired_decoded:
  "SyncToken_UnmarshalJSON zeroSyncToken syncTextExpired =
     Inr \<lparr>syncTimestamp = \<lparr>sec = 63835596800, nsec = 0\<rparr>,
          syncValidUntil = \<lparr>sec = 63735596800, nsec = 0\<rparr>\<rparr>"
  by code_simp

lemma syncTextZero_decoded:
  "SyncToken_UnmarshalJSON zeroSyncToken syncTextZero =
     Inr \<lparr>syncTimestamp = \<lparr>sec = 0, nsec = 0\<rparr>,
          syncValidUntil = \<lparr>sec = 63835683200, nsec = 0\<rparr>\<rparr>"
  by code_simp

lemma nextPageTextLive_decoded:
  "NextPageToken_UnmarshalJSON zeroNextPageToken nextPageTextLive =
     Inr \<lparr>Timestamp = \<lparr>sec = 63835596800, nsec = 0\<rparr>, UpdatedAfter = \<lparr>sec = 0, nsec = 0\<rparr>,
          Offset = 1, ValidUntil = \<lparr>sec = 63835683200, nsec = 0\<rparr>\<rparr>"
  by code_simp

lemma nextPageTextFiltered_decoded:
  "NextPageToken_UnmarshalJSON zeroNextPageToken nextPageTextFiltered =
     Inr \<lparr>Timestamp = \<lparr>sec = 63835596800, nsec = 0\<rparr>,
          UpdatedAfter = \<lparr>sec = 63825596800, nsec = 0\<rparr>,
          Offset = 7, ValidUntil = \<lparr>sec = 63835683200, nsec = 0\<rparr>\<rparr>"
  by code_simp

lemma nextPageTextExpired_decoded:
  "NextPageToken_UnmarshalJSON zeroNextPageToken nextPageTextExpired =
     Inr \<lparr>Timestamp = \<lparr>sec = 63835596800, nsec = 0\<rparr>, UpdatedAfter = \<lparr>sec = 0, nsec = 0\<rparr>,
          Offset = 1, ValidUntil = \<lparr>sec = 63735596800, nsec = 0\<rparr>\<rparr>"
  by code_simp

lemma example_texts_nonempty:
  "syncTextLive \<noteq> []" "syncTextExpired \<noteq> []" "syncTextZero \<noteq> []"
  "nextPageTextLive \<noteq> []" "nextPageTextFiltered \<noteq> []" "nextPageTextExpired \<noteq> []"
  by (simp_all add: syncTextLive_def syncTextExpired_def syncTextZero_def nextPageTextLive_def
      nextPageTextFiltered_def nextPageTextExpired_def)

subsection \<open>The cursor read from a request\<close>

lemma readCursor_none:
  assumes "q_sync_token r = []" and "q_next_page_token r = []"
  shows "readCursor clk r =
    Inr \<lparr>tableInPointOfTime = now_start clk, tableLocation = utcLoc,
                onlyNewerThan = zeroTime, offset = 0,
         nextPageToken = None, syncToken = None\<rparr>"
  using assms by (simp add: readCursor_def)

lemma readCursor_sync:
  assumes "q_sync_token r \<noteq> []"
    and "SyncToken_UnmarshalJSON zeroSyncToken (q_sync_token r) = Inr tok"
    and "\<not> Before (syncValidUntil tok) (now_expiry clk)"
  shows "readCursor clk r =
    Inr \<lparr>tableInPointOfTime = now_start clk, tableLocation = utcLoc,
                onlyNewerThan = syncTimestamp tok, offset = 0,
         nextPageToken = None, syncToken = None\<rparr>"
  using assms by (simp add: readCursor_def)

lemma readCursor_nextPage:
  assumes "q_sync_token r = []" and "q_next_page_token r \<noteq> []"
    and "NextPageToken_UnmarshalJSON zeroNextPageToken (q_next_page_token r) = Inr tok"
    and "\<not> Before (ValidUntil tok) (now_expiry clk)"
  shows "readCursor clk r =
    Inr \<lparr>tableInPointOfTime = Timestamp tok, tableLocation = time_Local clk,
                onlyNewerThan = UpdatedAfter tok,
         offset = Offset tok, nextPageToken = None, syncToken = None\<rparr>"
  using assms by (simp add: readCursor_def)

lemma readCursor_sync_expired:
  assumes "q_sync_token r \<noteq> []"
    and "SyncToken_UnmarshalJSON zeroSyncToken (q_sync_token r) = Inr tok"
    and "Before (syncValidUntil tok) (now_expiry clk)"
  shows "readCursor clk r = Inl \<lparr>status = StatusBadRequest, body = Text ''sync token expired''\<rparr>"
  using assms by (simp add: readCursor_def)

lemma readCursor_nextPage_expired:
  assumes "q_sync_token r = []" and "q_next_page_token r \<noteq> []"
    and "NextPageToken_UnmarshalJSON zeroNextPageToken (q_next_page_token r) = Inr tok"
    and "Before (ValidUntil tok) (now_expiry clk)"
  shows "readCursor clk r =
    Inl \<lparr>status = StatusBadRequest, body = Text ''next page token expired''\<rparr>"
  using assms by (simp add: readCursor_def)

lemma clock0_texts:
  "Format_DateTime utcLoc \<lparr>sec = 63835596800, nsec = 5\<rparr> = ''2023-11-14 22:13:20''"
  "Format_DateTime zonePlusOne \<lparr>sec = 63835596800, nsec = 0\<rparr> = ''2023-11-14 23:13:20''"
  by code_simp+

text \<open>
  C5. The three cursor cases of the planner, on the variables that lines 92-132 set and on
  the query made from them. Without a token the snapshot time is the current time, there
  is no \<open>updated_after\<close> filter and the offset is 0. With a sync token that has not expired
  the snapshot time is the current time, \<open>updated_after\<close> is the token's timestamp and the
  offset is 0. With a next-page token that has not expired the snapshot time,
  \<open>updated_after\<close> and the offset are those of the token. The query is made from these
  values: its offset is \<open>offset\<close>, its filter is \<open>updated_after\<close> unless that is the zero
  time, and its point in time is the text of the snapshot time, printed in UTC in the
  first two cases and in the location of the process in the third.
\<close>

theorem planner_cases:
  "(q_sync_token r = [] \<and> q_next_page_token r = [] \<longrightarrow>
      (\<exists>vars. readCursor clk r = Inr vars
        \<and> tableInPointOfTime vars = now_start clk \<and> tableLocation vars = utcLoc
        \<and> onlyNewerThan vars = zeroTime \<and> offset vars = 0
        \<and> buildQuery vars m =
            \<lparr>as_of = Format_DateTime utcLoc (now_start clk), updated_after = None,
             limit = m, skip = 0\<rparr>))
   \<and> (q_sync_token r \<noteq> []
        \<and> SyncToken_UnmarshalJSON zeroSyncToken (q_sync_token r) = Inr stok
        \<and> \<not> Before (syncValidUntil stok) (now_expiry clk) \<longrightarrow>
      (\<exists>vars. readCursor clk r = Inr vars
        \<and> tableInPointOfTime vars = now_start clk \<and> tableLocation vars = utcLoc
        \<and> onlyNewerThan vars = syncTimestamp stok \<and> offset vars = 0
        \<and> as_of (buildQuery vars m) = Format_DateTime utcLoc (now_start clk)
        \<and> skip (buildQuery vars m) = 0
        \<and> updated_after (buildQuery vars m) =
            (if IsZero (syncTimestamp stok) then None else Some (syncTimestamp stok))))
   \<and> (q_sync_token r = [] \<and> q_next_page_token r \<noteq> []
        \<and> NextPageToken_UnmarshalJSON zeroNextPageToken (q_next_page_token r) = Inr ntok
        \<and> \<not> Before (ValidUntil ntok) (now_expiry clk) \<longrightarrow>
      (\<exists>vars. readCursor clk r = Inr vars
        \<and> tableInPointOfTime vars = Timestamp ntok \<and> tableLocation vars = time_Local clk
        \<and> onlyNewerThan vars = UpdatedAfter ntok \<and> offset vars = Offset ntok
        \<and> as_of (buildQuery vars m) = Format_DateTime (time_Local clk) (Timestamp ntok)
        \<and> skip (buildQuery vars m) = Offset ntok
        \<and> updated_after (buildQuery vars m) =
            (if IsZero (UpdatedAfter ntok) then None else Some (UpdatedAfter ntok))))"
  by (auto simp: readCursor_none readCursor_sync readCursor_nextPage buildQuery_def
      IsZero_def zeroTime_def)

theorem planner_cases_witness:
  "(q_sync_token (noCursor []) = [] \<and> q_next_page_token (noCursor []) = []
    \<and> (\<exists>vars. readCursor clock0 (noCursor []) = Inr vars
        \<and> tableInPointOfTime vars = now_start clock0 \<and> tableLocation vars = utcLoc
        \<and> onlyNewerThan vars = zeroTime \<and> offset vars = 0
        \<and> buildQuery vars 10 =
            \<lparr>as_of = ''2023-11-14 22:13:20'', updated_after = None, limit = 10, skip = 0\<rparr>))
   \<and> (q_sync_token (syncRequest syncTextLive) \<noteq> []
    \<and> \<not> Before \<lparr>sec = 63835683200, nsec = 0\<rparr> (now_expiry clock0)
    \<and> (\<exists>vars. readCursor clock0 (syncRequest syncTextLive) = Inr vars
        \<and> tableInPointOfTime vars = now_start clock0 \<and> tableLocation vars = utcLoc
        \<and> onlyNewerThan vars = \<lparr>sec = 63835596800, nsec = 0\<rparr> \<and> offset vars = 0
        \<and> buildQuery vars 10 =
            \<lparr>as_of = ''2023-11-14 22:13:20'',
             updated_after = Some \<lparr>sec = 63835596800, nsec = 0\<rparr>, limit = 10, skip = 0\<rparr>))
   \<and> (q_sync_token (nextPageRequest nextPageTextFiltered []) = []
    \<and> q_next_page_token (nextPageRequest nextPageTextFiltered []) \<noteq> []
    \<and> (\<exists>vars. readCursor clock0 (nextPageRequest nextPageTextFiltered []) = Inr vars
        \<and> tableInPointOfTime vars = \<lparr>sec = 63835596800, nsec = 0\<rparr>
        \<and> tableLocation vars = zonePlusOne
        \<and> onlyNewerThan vars = \<lparr>sec = 63825596800, nsec = 0\<rparr> \<and> offset vars = 7
        \<and> buildQuery vars 10 =
            \<lparr>as_of = ''2023-11-14 23:13:20'',
             updated_after = Some \<lparr>sec = 63825596800, nsec = 0\<rparr>, limit = 10, skip = 7\<rparr>))"
proof -
  have a: "q_sync_token (noCursor []) = [] \<and> q_next_page_token (noCursor []) = []"
    by (simp add: noCursor_def)
  have b: "q_sync_token (syncRequest syncTextLive) \<noteq> []
      \<and> SyncToken_UnmarshalJSON zeroSyncToken (q_sync_token (syncRequest syncTextLive)) =
          Inr \<lparr>syncTimestamp = \<lparr>sec = 63835596800, nsec = 0\<rparr>,
               syncValidUntil = \<lparr>sec = 63835683200, nsec = 0\<rparr>\<rparr>
      \<and> \<not> Before (syncValidUntil \<lparr>syncTimestamp = \<lparr>sec = 63835596800, nsec = 0\<rparr>,
               syncValidUntil = \<lparr>sec = 63835683200, nsec = 0\<rparr>\<rparr>) (now_expiry clock0)"
    by (simp add: syncRequest_def syncTextLive_decoded example_texts_nonempty Before_def
        clock0_def)
  have c: "q_sync_token (nextPageRequest nextPageTextFiltered []) = []
      \<and> q_next_page_token (nextPageRequest nextPageTextFiltered []) \<noteq> []
      \<and> NextPageToken_UnmarshalJSON zeroNextPageToken
          (q_next_page_token (nextPageRequest nextPageTextFiltered [])) =
          Inr \<lparr>Timestamp = \<lparr>sec = 63835596800, nsec = 0\<rparr>,
               UpdatedAfter = \<lparr>sec = 63825596800, nsec = 0\<rparr>,
               Offset = 7, ValidUntil = \<lparr>sec = 63835683200, nsec = 0\<rparr>\<rparr>
      \<and> \<not> Before (ValidUntil \<lparr>Timestamp = \<lparr>sec = 63835596800, nsec = 0\<rparr>,
               UpdatedAfter = \<lparr>sec = 63825596800, nsec = 0\<rparr>,
               Offset = 7, ValidUntil = \<lparr>sec = 63835683200, nsec = 0\<rparr>\<rparr>) (now_expiry clock0)"
    by (simp add: nextPageRequest_def nextPageTextFiltered_decoded example_texts_nonempty
        Before_def clock0_def)
  have n: "now_start clock0 = \<lparr>sec = 63835596800, nsec = 5\<rparr>" "time_Local clock0 = zonePlusOne"
    by (simp_all add: clock0_def)
  have z: "\<not> IsZero \<lparr>sec = 63835596800, nsec = 0\<rparr>" "\<not> IsZero \<lparr>sec = 63825596800, nsec = 0\<rparr>"
    by (simp_all add: IsZero_def)
  from planner_cases [where r = "noCursor []" and clk = clock0 and m = 10] a
  have 1: "\<exists>vars. readCursor clock0 (noCursor []) = Inr vars
        \<and> tableInPointOfTime vars = now_start clock0 \<and> tableLocation vars = utcLoc
        \<and> onlyNewerThan vars = zeroTime \<and> offset vars = 0
        \<and> buildQuery vars 10 =
            \<lparr>as_of = Format_DateTime utcLoc (now_start clock0), updated_after = None,
             limit = 10, skip = 0\<rparr>"
    by blast
  from planner_cases [where r = "syncRequest syncTextLive" and clk = clock0 and m = 10
      and stok = "\<lparr>syncTimestamp = \<lparr>sec = 63835596800, nsec = 0\<rparr>,
        syncValidUntil = \<lparr>sec = 63835683200, nsec = 0\<rparr>\<rparr>"] b
  have 2: "\<exists>vars. readCursor clock0 (syncRequest syncTextLive) = Inr vars
        \<and> tableInPointOfTime vars = now_start clock0 \<and> tableLocation vars = utcLoc
        \<and> onlyNewerThan vars = syncTimestamp \<lparr>syncTimestamp = \<lparr>sec = 63835596800, nsec = 0\<rparr>,
            syncValidUntil = \<lparr>sec = 63835683200, nsec = 0\<rparr>\<rparr>
        \<and> offset vars = 0
        \<and> buildQuery vars 10 =
            \<lparr>as_of = Format_DateTime utcLoc (now_start clock0),
             updated_after = Some \<lparr>sec = 63835596800, nsec = 0\<rparr>, limit = 10, skip = 0\<rparr>"
    by (auto simp: readCursor_sync buildQuery_def z)
  from planner_cases [where r = "nextPageRequest nextPageTextFiltered []" and clk = clock0
      and m = 10 and ntok = "\<lparr>Timestamp = \<lparr>sec = 63835596800, nsec = 0\<rparr>,
        UpdatedAfter = \<lparr>sec = 63825596800, nsec = 0\<rparr>,
        Offset = 7, ValidUntil = \<lparr>sec = 63835683200, nsec = 0\<rparr>\<rparr>"] c
  have 3: "\<exists>vars. readCursor clock0 (nextPageRequest nextPageTextFiltered []) = Inr vars
        \<and> tableInPointOfTime vars = \<lparr>sec = 63835596800, nsec = 0\<rparr>
        \<and> tableLocation vars = time_Local clock0
        \<and> onlyNewerThan vars = \<lparr>sec = 63825596800, nsec = 0\<rparr> \<and> offset vars = 7
        \<and> buildQuery vars 10 =
            \<lparr>as_of = Format_DateTime (time_Local clock0) \<lparr>sec = 63835596800, nsec = 0\<rparr>,
             updated_after = Some \<lparr>sec = 63825596800, nsec = 0\<rparr>, limit = 10, skip = 7\<rparr>"
    by (auto simp: readCursor_nextPage buildQuery_def z)
  from a b c 1 2 3 show ?thesis
    by (simp add: n clock0_texts)
qed

subsection \<open>Expiry\<close>

text \<open>
  C7. A token of either kind that decodes and whose \<open>valid_until\<close> is before the current
  time is answered with status 400 and a message, whatever its other fields are. The
  database is not asked: the response is the same for every database, and it carries no
  records.
\<close>

theorem expired_token_rejected:
  "(q_sync_token r \<noteq> []
      \<and> SyncToken_UnmarshalJSON zeroSyncToken (q_sync_token r) = Inr stok
      \<and> Before (syncValidUntil stok) (now_expiry clk) \<longrightarrow>
    listHandler db clk r = \<lparr>status = StatusBadRequest, body = Text ''sync token expired''\<rparr>)
   \<and> (q_sync_token r = [] \<and> q_next_page_token r \<noteq> []
      \<and> NextPageToken_UnmarshalJSON zeroNextPageToken (q_next_page_token r) = Inr ntok
      \<and> Before (ValidUntil ntok) (now_expiry clk) \<longrightarrow>
    listHandler db clk r =
      \<lparr>status = StatusBadRequest, body = Text ''next page token expired''\<rparr>)"
  by (simp add: listHandler_def readCursor_sync_expired readCursor_nextPage_expired)

theorem expired_token_rejected_witness:
  "Before \<lparr>sec = 63735596800, nsec = 0\<rparr> (now_expiry clock0)
   \<and> listHandler (tableDB [someUser]) clock0 (syncRequest syncTextExpired) =
       \<lparr>status = StatusBadRequest, body = Text ''sync token expired''\<rparr>
   \<and> listHandler (tableDB [someUser]) clock0 (nextPageRequest nextPageTextExpired []) =
       \<lparr>status = StatusBadRequest, body = Text ''next page token expired''\<rparr>"
proof -
  have x: "Before \<lparr>sec = 63735596800, nsec = 0\<rparr> (now_expiry clock0)"
    by (simp add: Before_def clock0_def)
  have a: "q_sync_token (syncRequest syncTextExpired) \<noteq> []
      \<and> SyncToken_UnmarshalJSON zeroSyncToken (q_sync_token (syncRequest syncTextExpired)) =
          Inr \<lparr>syncTimestamp = \<lparr>sec = 63835596800, nsec = 0\<rparr>,
               syncValidUntil = \<lparr>sec = 63735596800, nsec = 0\<rparr>\<rparr>
      \<and> Before (syncValidUntil \<lparr>syncTimestamp = \<lparr>sec = 63835596800, nsec = 0\<rparr>,
               syncValidUntil = \<lparr>sec = 63735596800, nsec = 0\<rparr>\<rparr>) (now_expiry clock0)"
    using x by (simp add: syncRequest_def syncTextExpired_decoded example_texts_nonempty)
  have b: "q_sync_token (nextPageRequest nextPageTextExpired []) = []
      \<and> q_next_page_token (nextPageRequest nextPageTextExpired []) \<noteq> []
      \<and> NextPageToken_UnmarshalJSON zeroNextPageToken
          (q_next_page_token (nextPageRequest nextPageTextExpired [])) =
          Inr \<lparr>Timestamp = \<lparr>sec = 63835596800, nsec = 0\<rparr>, UpdatedAfter = \<lparr>sec = 0, nsec = 0\<rparr>,
               Offset = 1, ValidUntil = \<lparr>sec = 63735596800, nsec = 0\<rparr>\<rparr>
      \<and> Before (ValidUntil \<lparr>Timestamp = \<lparr>sec = 63835596800, nsec = 0\<rparr>,
               UpdatedAfter = \<lparr>sec = 0, nsec = 0\<rparr>,
               Offset = 1, ValidUntil = \<lparr>sec = 63735596800, nsec = 0\<rparr>\<rparr>) (now_expiry clock0)"
    using x by (simp add: nextPageRequest_def nextPageTextExpired_decoded example_texts_nonempty)
  from expired_token_rejected [where r = "syncRequest syncTextExpired" and clk = clock0
      and db = "tableDB [someUser]"] a
  have 1: "listHandler (tableDB [someUser]) clock0 (syncRequest syncTextExpired) =
       \<lparr>status = StatusBadRequest, body = Text ''sync token expired''\<rparr>"
    by blast
  from expired_token_rejected [where r = "nextPageRequest nextPageTextExpired []"
      and clk = clock0 and db = "tableDB [someUser]"] b
  have 2: "listHandler (tableDB [someUser]) clock0 (nextPageRequest nextPageTextExpired []) =
       \<lparr>status = StatusBadRequest, body = Text ''next page token expired''\<rparr>"
    by blast
  from x 1 2 show ?thesis by simp
qed

subsection \<open>The filter of the query\<close>

text \<open>
  C9. When the \<open>updated_after\<close> value of a request is the zero time, the statement is the
  one without filter: this is so without a token, with a next-page token whose
  \<open>updated_after\<close> is the zero time, and with a sync token whose timestamp is the zero
  time. Such a sync token is answered exactly as a request without any token.
\<close>

theorem zero_updated_after_no_filter:
  "(readCursor clk r = Inr vars \<and> IsZero (onlyNewerThan vars) \<longrightarrow>
      updated_after (buildQuery vars m) = None)
   \<and> (q_sync_token r = [] \<and> q_next_page_token r = [] \<longrightarrow>
      (\<exists>vars. readCursor clk r = Inr vars \<and> updated_after (buildQuery vars m) = None))
   \<and> (q_sync_token r = [] \<and> q_next_page_token r \<noteq> []
      \<and> NextPageToken_UnmarshalJSON zeroNextPageToken (q_next_page_token r) = Inr ntok
      \<and> \<not> Before (ValidUntil ntok) (now_expiry clk) \<and> IsZero (UpdatedAfter ntok) \<longrightarrow>
      (\<exists>vars. readCursor clk r = Inr vars \<and> updated_after (buildQuery vars m) = None))
   \<and> (q_sync_token r \<noteq> []
      \<and> SyncToken_UnmarshalJSON zeroSyncToken (q_sync_token r) = Inr stok
      \<and> \<not> Before (syncValidUntil stok) (now_expiry clk) \<and> IsZero (syncTimestamp stok) \<longrightarrow>
      (\<exists>vars. readCursor clk r = Inr vars \<and> updated_after (buildQuery vars m) = None)
      \<and> listHandler db clk r =
          listHandler db clk (r\<lparr>q_sync_token := [], q_next_page_token := []\<rparr>))"
proof -
  have z: "\<And>t. IsZero t \<Longrightarrow> t = zeroTime"
    by (simp add: IsZero_def zeroTime_def)
  have 1: "readCursor clk r = Inr vars \<and> IsZero (onlyNewerThan vars) \<longrightarrow>
      updated_after (buildQuery vars m) = None"
    by (simp add: buildQuery_def)
  have 2: "q_sync_token r = [] \<and> q_next_page_token r = [] \<longrightarrow>
      (\<exists>vars. readCursor clk r = Inr vars \<and> updated_after (buildQuery vars m) = None)"
    by (simp add: readCursor_none buildQuery_def IsZero_def zeroTime_def)
  have 3: "q_sync_token r = [] \<and> q_next_page_token r \<noteq> []
      \<and> NextPageToken_UnmarshalJSON zeroNextPageToken (q_next_page_token r) = Inr ntok
      \<and> \<not> Before (ValidUntil ntok) (now_expiry clk) \<and> IsZero (UpdatedAfter ntok) \<longrightarrow>
      (\<exists>vars. readCursor clk r = Inr vars \<and> updated_after (buildQuery vars m) = None)"
    by (simp add: readCursor_nextPage buildQuery_def)
  have 4: "(\<exists>vars. readCursor clk r = Inr vars \<and> updated_after (buildQuery vars m) = None)
      \<and> listHandler db clk r =
          listHandler db clk (r\<lparr>q_sync_token := [], q_next_page_token := []\<rparr>)"
    if h: "q_sync_token r \<noteq> []"
      "SyncToken_UnmarshalJSON zeroSyncToken (q_sync_token r) = Inr stok"
      "\<not> Before (syncValidUntil stok) (now_expiry clk)" "IsZero (syncTimestamp stok)"
  proof -
    have c: "readCursor clk r =
        Inr \<lparr>tableInPointOfTime = now_start clk, tableLocation = utcLoc,
                    onlyNewerThan = zeroTime, offset = 0,
             nextPageToken = None, syncToken = None\<rparr>"
      using h z [of "syncTimestamp stok"] by (simp add: readCursor_sync)
    have c': "readCursor clk (r\<lparr>q_sync_token := [], q_next_page_token := []\<rparr>) =
        Inr \<lparr>tableInPointOfTime = now_start clk, tableLocation = utcLoc,
                    onlyNewerThan = zeroTime, offset = 0,
             nextPageToken = None, syncToken = None\<rparr>"
      by (simp add: readCursor_none)
    have m: "readMaxResults (r\<lparr>q_sync_token := [], q_next_page_token := []\<rparr>) =
        readMaxResults r"
      by (simp add: readMaxResults_def)
    show ?thesis
      by (simp add: listHandler_def c c' m) (simp add: buildQuery_def IsZero_def zeroTime_def)
  qed
  from 1 2 3 4 show ?thesis by blast
qed

theorem zero_updated_after_no_filter_witness:
  "IsZero \<lparr>sec = 0, nsec = 0\<rparr>
   \<and> \<not> Before \<lparr>sec = 63835683200, nsec = 0\<rparr> (now_expiry clock0)
   \<and> readCursor clock0 (noCursor []) =
       Inr \<lparr>tableInPointOfTime = now_start clock0, tableLocation = utcLoc,
                   onlyNewerThan = zeroTime, offset = 0,
            nextPageToken = None, syncToken = None\<rparr>
   \<and> updated_after (buildQuery \<lparr>tableInPointOfTime = now_start clock0, tableLocation = utcLoc,
        onlyNewerThan = zeroTime, offset = 0, nextPageToken = None, syncToken = None\<rparr> 10) = None
   \<and> (\<exists>vars. readCursor clock0 (nextPageRequest nextPageTextLive []) = Inr vars
        \<and> updated_after (buildQuery vars 10) = None)
   \<and> (\<exists>vars. readCursor clock0 (syncRequest syncTextZero) = Inr vars
        \<and> updated_after (buildQuery vars 10) = None)
   \<and> listHandler (tableDB [someUser]) clock0 (syncRequest syncTextZero) =
       listHandler (tableDB [someUser]) clock0
         ((syncRequest syncTextZero)\<lparr>q_sync_token := [], q_next_page_token := []\<rparr>)"
proof -
  have z: "IsZero \<lparr>sec = 0, nsec = 0\<rparr>"
    by (simp add: IsZero_def)
  have x: "\<not> Before \<lparr>sec = 63835683200, nsec = 0\<rparr> (now_expiry clock0)"
    by (simp add: Before_def clock0_def)
  have a: "q_sync_token (noCursor []) = [] \<and> q_next_page_token (noCursor []) = []"
    by (simp add: noCursor_def)
  have a': "readCursor clock0 (noCursor []) =
       Inr \<lparr>tableInPointOfTime = now_start clock0, tableLocation = utcLoc,
                   onlyNewerThan = zeroTime, offset = 0,
            nextPageToken = None, syncToken = None\<rparr>"
    using a by (simp add: readCursor_none)
  have b: "q_sync_token (nextPageRequest nextPageTextLive []) = []
      \<and> q_next_page_token (nextPageRequest nextPageTextLive []) \<noteq> []
      \<and> NextPageToken_UnmarshalJSON zeroNextPageToken
          (q_next_page_token (nextPageRequest nextPageTextLive [])) =
          Inr \<lparr>Timestamp = \<lparr>sec = 63835596800, nsec = 0\<rparr>, UpdatedAfter = \<lparr>sec = 0, nsec = 0\<rparr>,
               Offset = 1, ValidUntil = \<lparr>sec = 63835683200, nsec = 0\<rparr>\<rparr>
      \<and> \<not> Before (ValidUntil \<lparr>Timestamp = \<lparr>sec = 63835596800, nsec = 0\<rparr>,
               UpdatedAfter = \<lparr>sec = 0, nsec = 0\<rparr>,
               Offset = 1, ValidUntil = \<lparr>sec = 63835683200, nsec = 0\<rparr>\<rparr>) (now_expiry clock0)
      \<and> IsZero (UpdatedAfter \<lparr>Timestamp = \<lparr>sec = 63835596800, nsec = 0\<rparr>,
               UpdatedAfter = \<lparr>sec = 0, nsec = 0\<rparr>,
               Offset = 1, ValidUntil = \<lparr>sec = 63835683200, nsec = 0\<rparr>\<rparr>)"
    using x z by (simp add: nextPageRequest_def nextPageTextLive_decoded example_texts_nonempty)
  have c: "q_sync_token (syncRequest syncTextZero) \<noteq> []
      \<and> SyncToken_UnmarshalJSON zeroSyncToken (q_sync_token (syncRequest syncTextZero)) =
          Inr \<lparr>syncTimestamp = \<lparr>sec = 0, nsec = 0\<rparr>,
               syncValidUntil = \<lparr>sec = 63835683200, nsec = 0\<rparr>\<rparr>
      \<and> \<not> Before (syncValidUntil \<lparr>syncTimestamp = \<lparr>sec = 0, nsec = 0\<rparr>,
               syncValidUntil = \<lparr>sec = 63835683200, nsec = 0\<rparr>\<rparr>) (now_expiry clock0)
      \<and> IsZero (syncTimestamp \<lparr>syncTimestamp = \<lparr>sec = 0, nsec = 0\<rparr>,
               syncValidUntil = \<lparr>sec = 63835683200, nsec = 0\<rparr>\<rparr>)"
    using x z by (simp add: syncRequest_def syncTextZero_decoded example_texts_nonempty)
  note t1 = zero_updated_after_no_filter [where clk = clock0 and r = "noCursor []"
      and vars = "\<lparr>tableInPointOfTime = now_start clock0, tableLocation = utcLoc,
                          onlyNewerThan = zeroTime,
        offset = 0, nextPageToken = None, syncToken = None\<rparr>" and m = 10]
  note t2 = zero_updated_after_no_filter [where clk = clock0
      and r = "nextPageRequest nextPageTextLive []" and m = 10 and ntok =
      "\<lparr>Timestamp = \<lparr>sec = 63835596800, nsec = 0\<rparr>, UpdatedAfter = \<lparr>sec = 0, nsec = 0\<rparr>,
        Offset = 1, ValidUntil = \<lparr>sec = 63835683200, nsec = 0\<rparr>\<rparr>"]
  note t3 = zero_updated_after_no_filter [where clk = clock0
      and r = "syncRequest syncTextZero" and m = 10 and db = "tableDB [someUser]" and stok =
      "\<lparr>syncTimestamp = \<lparr>sec = 0, nsec = 0\<rparr>,
        syncValidUntil = \<lparr>sec = 63835683200, nsec = 0\<rparr>\<rparr>"]
  have z': "IsZero (onlyNewerThan \<lparr>tableInPointOfTime = now_start clock0, tableLocation = utcLoc,
      onlyNewerThan = zeroTime, offset = 0, nextPageToken = None, syncToken = None\<rparr>)"
    by (simp add: IsZero_def zeroTime_def)
  from t1 a' z' have 1: "updated_after (buildQuery \<lparr>tableInPointOfTime = now_start clock0, tableLocation = utcLoc,
        onlyNewerThan = zeroTime, offset = 0, nextPageToken = None, syncToken = None\<rparr> 10) = None"
    by blast
  from t2 b have 2: "\<exists>vars. readCursor clock0 (nextPageRequest nextPageTextLive []) = Inr vars
        \<and> updated_after (buildQuery vars 10) = None"
    by blast
  from t3 c have 3: "(\<exists>vars. readCursor clock0 (syncRequest syncTextZero) = Inr vars
        \<and> updated_after (buildQuery vars 10) = None)
      \<and> listHandler (tableDB [someUser]) clock0 (syncRequest syncTextZero) =
       listHandler (tableDB [someUser]) clock0
         ((syncRequest syncTextZero)\<lparr>q_sync_token := [], q_next_page_token := []\<rparr>)"
    by blast
  from z x a' 1 2 3 show ?thesis by simp
qed

subsection \<open>The continuation decision\<close>

text \<open>
  C2, as the claim states it, fails for \<open>max_results = 0\<close>: the page is empty, so the
  number of records returned equals \<open>max_results\<close>, and the response carries a sync token
  and no next-page token.
\<close>

theorem full_page_zero_counterexample:
  "status (listHandler (tableDB [someUser]) clock0 (noCursor ''0'')) = StatusOK
   \<and> (\<exists>lr. body (listHandler (tableDB [someUser]) clock0 (noCursor ''0'')) = Listing lr
        \<and> int (length (users lr)) = sint (readMaxResults (noCursor ''0''))
        \<and> next_page_token lr = None \<and> sync_token lr \<noteq> None)"
proof -
  have m: "readMaxResults (noCursor ''0'') = 0"
    by (simp add: readMaxResults_def noCursor_def ParseInt_def isDigit_def digitChars_def
        parseNat_def digitVal_def)
  have c: "readCursor clock0 (noCursor ''0'') =
      Inr \<lparr>tableInPointOfTime = now_start clock0, tableLocation = utcLoc,
                  onlyNewerThan = zeroTime, offset = 0,
           nextPageToken = None, syncToken = None\<rparr>"
    by (simp add: readCursor_none noCursor_def)
  have r0: "listHandler (tableDB [someUser]) clock0 (noCursor ''0'') =
      \<lparr>status = StatusOK, body = Listing \<lparr>users = [], next_page_token = None,
         sync_token = Some \<lparr>syncTimestamp = now_start clock0,
           syncValidUntil =
             AddDate_0_0_1 (time_Local clock0) (now_issue clock0)\<rparr>\<rparr>\<rparr>"
    by (simp add: listHandler_def c m buildQuery_def tableDB_def IsZero_def zeroTime_def
        continuation_def)
  show ?thesis
    by (simp add: r0 m)
qed

text \<open>
  C2, amended. A successful response carries a next-page token if and only if the page is
  not empty and holds at least \<open>max_results\<close> records; when the database honours the limit
  this is: not empty and exactly \<open>max_results\<close> records. In every other case, so for every
  empty page and for \<open>max_results = 0\<close>, it carries a sync token whose timestamp is the
  snapshot time of the pass, the time that the query names in its text.
\<close>

theorem continuation_decision:
  assumes "status (listHandler db clk r) = StatusOK"
    and "body (listHandler db clk r) = Listing lr"
  shows "(next_page_token lr \<noteq> None \<longleftrightarrow>
            users lr \<noteq> [] \<and> sint (readMaxResults r) \<le> int (length (users lr)))
    \<and> (int (length (users lr)) \<le> sint (readMaxResults r) \<longrightarrow>
         (next_page_token lr \<noteq> None \<longleftrightarrow>
            users lr \<noteq> [] \<and> int (length (users lr)) = sint (readMaxResults r)))
    \<and> (next_page_token lr = None \<longrightarrow>
         (\<exists>vars. readCursor clk r = Inr vars
            \<and> db (buildQuery vars (readMaxResults r)) = Some (users lr)
            \<and> as_of (buildQuery vars (readMaxResults r)) =
                Format_DateTime (tableLocation vars) (tableInPointOfTime vars)
            \<and> sync_token lr =
                Some \<lparr>syncTimestamp = tableInPointOfTime vars,
                      syncValidUntil = AddDate_0_0_1 (time_Local clk) (now_issue clk)\<rparr>))"
proof -
  from assms(1) obtain vars us where c: "readCursor clk r = Inr vars"
    and v: "nextPageToken vars = None" "syncToken vars = None"
    and q: "db (buildQuery vars (readMaxResults r)) = Some us"
    and r: "listHandler db clk r =
      \<lparr>status = StatusOK,
       body = Listing \<lparr>users = us,
         next_page_token = nextPageToken (continuation clk vars (readMaxResults r) us),
         sync_token = syncToken (continuation clk vars (readMaxResults r) us)\<rparr>\<rparr>"
    by (rule listHandler_ok)
  from assms(2) r have lr: "lr = \<lparr>users = us,
         next_page_token = nextPageToken (continuation clk vars (readMaxResults r) us),
         sync_token = syncToken (continuation clk vars (readMaxResults r) us)\<rparr>"
    by simp
  have a: "as_of (buildQuery vars (readMaxResults r)) =
      Format_DateTime (tableLocation vars) (tableInPointOfTime vars)"
    by (simp add: buildQuery_def)
  show ?thesis
    unfolding lr using v c q a by (auto simp: continuation_def)
qed

theorem continuation_decision_witness:
  "status (listHandler (tableDB [someUser]) clock0 (noCursor ''1'')) = StatusOK
   \<and> body (listHandler (tableDB [someUser]) clock0 (noCursor ''1'')) =
       Listing \<lparr>users = [someUser],
         next_page_token = Some \<lparr>Timestamp = now_start clock0, UpdatedAfter = zeroTime,
           Offset = 1, ValidUntil = AddDate_0_0_1 (time_Local clock0) (now_issue clock0)\<rparr>,
         sync_token = None\<rparr>
   \<and> sint (readMaxResults (noCursor ''1'')) = 1
   \<and> status (listHandler (tableDB [someUser]) clock0 (noCursor ''2'')) = StatusOK
   \<and> body (listHandler (tableDB [someUser]) clock0 (noCursor ''2'')) =
       Listing \<lparr>users = [someUser], next_page_token = None,
         sync_token = Some \<lparr>syncTimestamp = now_start clock0,
           syncValidUntil = AddDate_0_0_1 (time_Local clock0) (now_issue clock0)\<rparr>\<rparr>"
proof -
  have m1: "readMaxResults (noCursor ''1'') = 1"
    by (simp add: readMaxResults_def noCursor_def ParseInt_def isDigit_def digitChars_def
        parseNat_def digitVal_def)
  have m2: "readMaxResults (noCursor ''2'') = 2"
    by (simp add: readMaxResults_def noCursor_def ParseInt_def isDigit_def digitChars_def
        parseNat_def digitVal_def)
  have c: "\<And>m. readCursor clock0 (noCursor m) =
      Inr \<lparr>tableInPointOfTime = now_start clock0, tableLocation = utcLoc,
                  onlyNewerThan = zeroTime, offset = 0,
           nextPageToken = None, syncToken = None\<rparr>"
    by (simp add: readCursor_none noCursor_def)
  have r1: "listHandler (tableDB [someUser]) clock0 (noCursor ''1'') =
      \<lparr>status = StatusOK, body = Listing \<lparr>users = [someUser],
         next_page_token = Some \<lparr>Timestamp = now_start clock0, UpdatedAfter = zeroTime,
           Offset = 1, ValidUntil = AddDate_0_0_1 (time_Local clock0) (now_issue clock0)\<rparr>,
         sync_token = None\<rparr>\<rparr>"
    by (simp add: listHandler_def c m1 buildQuery_def tableDB_def IsZero_def zeroTime_def
        continuation_def)
  have r2: "listHandler (tableDB [someUser]) clock0 (noCursor ''2'') =
      \<lparr>status = StatusOK, body = Listing \<lparr>users = [someUser], next_page_token = None,
         sync_token = Some \<lparr>syncTimestamp = now_start clock0,
           syncValidUntil =
             AddDate_0_0_1 (time_Local clock0) (now_issue clock0)\<rparr>\<rparr>\<rparr>"
    by (simp add: listHandler_def c m2 buildQuery_def tableDB_def IsZero_def zeroTime_def
        continuation_def)
  have s1: "status (listHandler (tableDB [someUser]) clock0 (noCursor ''1'')) = StatusOK"
    and b1: "body (listHandler (tableDB [someUser]) clock0 (noCursor ''1'')) =
       Listing \<lparr>users = [someUser],
         next_page_token = Some \<lparr>Timestamp = now_start clock0, UpdatedAfter = zeroTime,
           Offset = 1, ValidUntil = AddDate_0_0_1 (time_Local clock0) (now_issue clock0)\<rparr>,
         sync_token = None\<rparr>"
    by (simp_all add: r1)
  have s2: "status (listHandler (tableDB [someUser]) clock0 (noCursor ''2'')) = StatusOK"
    and b2: "body (listHandler (tableDB [someUser]) clock0 (noCursor ''2'')) =
       Listing \<lparr>users = [someUser], next_page_token = None,
         sync_token = Some \<lparr>syncTimestamp = now_start clock0,
           syncValidUntil = AddDate_0_0_1 (time_Local clock0) (now_issue clock0)\<rparr>\<rparr>"
    by (simp_all add: r2)
  note continuation_decision [OF s1 b1] continuation_decision [OF s2 b2]
  with s1 b1 s2 b2 m1 show ?thesis by simp
qed

subsection \<open>base64: decoding undoes encoding\<close>

lemma decodeMap_encodeStd:
  assumes "n < 64" shows "decodeMap (encodeStd ! n) = Some n"
proof -
  have "list_all (\<lambda>n. decodeMap (encodeStd ! n) = Some n) [0..<64]"
    by code_simp
  with assms show ?thesis
    by (simp add: list_all_iff)
qed

lemma decodeMap_padChar: "decodeMap padChar = None"
  by code_simp

lemma quantum_arith:
  fixes a b c :: nat
  assumes "a < 256" and "b < 256" and "c < 256"
  shows "a div 4 < 64" and "(a mod 4) * 16 + b div 16 < 64"
    and "(b mod 16) * 4 + c div 64 < 64" and "c mod 64 < 64"
    and "(a div 4) * 4 + ((a mod 4) * 16 + b div 16) div 16 = a"
    and "(((a mod 4) * 16 + b div 16) mod 16) * 16 + ((b mod 16) * 4 + c div 64) div 4 = b"
    and "(((b mod 16) * 4 + c div 64) mod 4) * 64 + c mod 64 = c"
proof -
  from assms have a: "a div 4 < 64" and b: "b div 16 < 16" and c: "c div 64 < 4"
    by (simp_all add: less_mult_imp_div_less)
  have a4: "a mod 4 < 4" and b16: "b mod 16 < 16" by simp_all
  have 1: "((a mod 4) * 16 + b div 16) div 16 = a mod 4"
    using b by simp
  have 2: "((a mod 4) * 16 + b div 16) mod 16 = b div 16"
    using b by simp
  have 3: "((b mod 16) * 4 + c div 64) div 4 = b mod 16"
    using c by simp
  have 4: "((b mod 16) * 4 + c div 64) mod 4 = c div 64"
    using c by simp
  show "a div 4 < 64" by (rule a)
  show "(a mod 4) * 16 + b div 16 < 64" using a4 b by linarith
  show "(b mod 16) * 4 + c div 64 < 64" using b16 c by linarith
  show "c mod 64 < 64" by simp
  show "(a div 4) * 4 + ((a mod 4) * 16 + b div 16) div 16 = a"
    unfolding 1 by simp
  show "(((a mod 4) * 16 + b div 16) mod 16) * 16 + ((b mod 16) * 4 + c div 64) div 4 = b"
    unfolding 2 3 by simp
  show "(((b mod 16) * 4 + c div 64) mod 4) * 64 + c mod 64 = c"
    unfolding 4 by simp
qed

lemma decodeQuanta_full:
  assumes "s1 < 64" and "s2 < 64" and "s3 < 64" and "s4 < 64"
  shows "decodeQuanta (encodeStd ! s1 # encodeStd ! s2 # encodeStd ! s3 # encodeStd ! s4 # rest) =
    (case decodeQuanta rest of
       None \<Rightarrow> None
     | Some out \<Rightarrow>
         Some (char_of (s1 * 4 + s2 div 16) # char_of ((s2 mod 16) * 16 + s3 div 4)
               # char_of ((s3 mod 4) * 64 + s4) # out))"
  using assms by (simp add: decodeMap_encodeStd)

lemma decodeQuanta_pad1:
  assumes "s1 < 64" and "s2 < 64" and "s3 < 64"
  shows "decodeQuanta [encodeStd ! s1, encodeStd ! s2, encodeStd ! s3, padChar] =
    Some [char_of (s1 * 4 + s2 div 16), char_of ((s2 mod 16) * 16 + s3 div 4)]"
  using assms by (simp add: decodeMap_encodeStd decodeMap_padChar)

lemma decodeQuanta_pad2:
  assumes "s1 < 64" and "s2 < 64"
  shows "decodeQuanta [encodeStd ! s1, encodeStd ! s2, padChar, padChar] =
    Some [char_of (s1 * 4 + s2 div 16)]"
  using assms by (simp add: decodeMap_encodeStd decodeMap_padChar)

lemma decodeQuanta_b64Encode: "decodeQuanta (b64Encode bs) = Some bs"
proof (induction bs rule: b64Encode.induct)
  case (1 x y z rest)
  define a b c :: nat where "a = of_char x" and "b = of_char y" and "c = of_char z"
  have lt: "a < 256" "b < 256" "c < 256"
    by (simp_all add: a_def b_def c_def nat_of_char_less_256)
  note q = quantum_arith [OF lt]
  have e: "b64Encode (x # y # z # rest) =
      encodeStd ! (a div 4) # encodeStd ! ((a mod 4) * 16 + b div 16)
      # encodeStd ! ((b mod 16) * 4 + c div 64) # encodeStd ! (c mod 64) # b64Encode rest"
    by (simp add: a_def b_def c_def Let_def)
  have ih: "decodeQuanta (b64Encode rest) = Some rest"
    using 1 by simp
  have "decodeQuanta (b64Encode (x # y # z # rest)) =
      Some (char_of a # char_of b # char_of c # rest)"
    unfolding e decodeQuanta_full [OF q(1-4)] ih q(5-7) by simp
  then show ?case
    by (simp add: a_def b_def c_def)
next
  case (2 x y)
  define a b :: nat where "a = of_char x" and "b = of_char y"
  have lt: "a < 256" "b < 256" "(0::nat) < 256"
    by (simp_all add: a_def b_def nat_of_char_less_256)
  note q = quantum_arith [OF lt]
  have e: "b64Encode [x, y] =
      [encodeStd ! (a div 4), encodeStd ! ((a mod 4) * 16 + b div 16),
       encodeStd ! ((b mod 16) * 4 + 0 div 64), padChar]"
    by (simp add: a_def b_def Let_def)
  have "decodeQuanta (b64Encode [x, y]) = Some [char_of a, char_of b]"
    unfolding e decodeQuanta_pad1 [OF q(1-3)] q(5-6) by simp
  then show ?case
    by (simp add: a_def b_def)
next
  case (3 x)
  define a :: nat where "a = of_char x"
  have lt: "a < 256" "(0::nat) < 256" "(0::nat) < 256"
    by (simp_all add: a_def nat_of_char_less_256)
  note q = quantum_arith [OF lt]
  have e: "b64Encode [x] =
      [encodeStd ! (a div 4), encodeStd ! ((a mod 4) * 16 + 0 div 16), padChar, padChar]"
    by (simp add: a_def Let_def)
  have "decodeQuanta (b64Encode [x]) = Some [char_of a]"
    unfolding e decodeQuanta_pad2 [OF q(1-2)] q(5) by simp
  then show ?case
    by (simp add: a_def)
next
  case 4
  show ?case by simp
qed

lemma encodeStd_nth_mem:
  assumes "n < 64" shows "encodeStd ! n \<in> set encodeStd"
proof -
  have "length encodeStd = 64"
    by (simp add: encodeStd_def)
  with assms show ?thesis
    by (simp add: nth_mem)
qed

lemma b64Encode_chars: "set (b64Encode bs) \<subseteq> insert padChar (set encodeStd)"
proof (induction bs rule: b64Encode.induct)
  case (1 x y z rest)
  have lt: "(of_char x :: nat) < 256" "(of_char y :: nat) < 256" "(of_char z :: nat) < 256"
    by (rule nat_of_char_less_256)+
  note q = quantum_arith(1-4) [OF lt, THEN encodeStd_nth_mem]
  from 1 have ih: "set (b64Encode rest) \<subseteq> insert padChar (set encodeStd)"
    by simp
  have e: "set (b64Encode (x # y # z # rest)) =
      {encodeStd ! ((of_char x :: nat) div 4),
       encodeStd ! (((of_char x :: nat) mod 4) * 16 + (of_char y :: nat) div 16),
       encodeStd ! (((of_char y :: nat) mod 16) * 4 + (of_char z :: nat) div 64),
       encodeStd ! ((of_char z :: nat) mod 64)} \<union> set (b64Encode rest)"
    by (simp add: Let_def)
  show ?case
    unfolding e using q ih by blast
next
  case (2 x y)
  have lt: "(of_char x :: nat) < 256" "(of_char y :: nat) < 256" "(0::nat) < 256"
    by (simp_all add: nat_of_char_less_256)
  note q = quantum_arith(1-3) [OF lt, THEN encodeStd_nth_mem]
  have e: "set (b64Encode [x, y]) =
      {encodeStd ! ((of_char x :: nat) div 4),
       encodeStd ! (((of_char x :: nat) mod 4) * 16 + (of_char y :: nat) div 16),
       encodeStd ! (((of_char y :: nat) mod 16) * 4 + 0 div 64), padChar}"
    by (simp add: Let_def)
  show ?case
    unfolding e using q by blast
next
  case (3 x)
  have lt: "(of_char x :: nat) < 256" "(0::nat) < 256" "(0::nat) < 256"
    by (simp_all add: nat_of_char_less_256)
  note q = quantum_arith(1-2) [OF lt, THEN encodeStd_nth_mem]
  have e: "set (b64Encode [x]) =
      {encodeStd ! ((of_char x :: nat) div 4),
       encodeStd ! (((of_char x :: nat) mod 4) * 16 + 0 div 16), padChar}"
    by (simp add: Let_def)
  show ?case
    unfolding e using q by blast
next
  case 4
  show ?case by simp
qed

lemma b64Encode_no_newline: "filter (\<lambda>c. \<not> isNewline c) (b64Encode bs) = b64Encode bs"
proof -
  have "\<forall>c \<in> insert padChar (set encodeStd). \<not> isNewline c"
    by (simp add: encodeStd_def isNewline_def padChar_def)
  with b64Encode_chars [of bs] have "\<forall>c \<in> set (b64Encode bs). \<not> isNewline c"
    by blast
  then show ?thesis
    by (simp add: filter_id_conv)
qed

lemma b64Decode_b64Encode: "b64Decode (b64Encode bs) = Some bs"
  by (simp add: b64Decode_def b64Encode_no_newline decodeQuanta_b64Encode)

subsection \<open>strconv: parsing undoes formatting\<close>

lemma digitChars_nth:
  assumes "k < 10"
  shows "isDigit (digitChars ! k)" and "digitVal (digitChars ! k) = k"
    and "(digitChars ! k = CHR ''0'') = (k = 0)"
proof -
  have "list_all (\<lambda>k. isDigit (digitChars ! k) \<and> digitVal (digitChars ! k) = k
      \<and> (digitChars ! k = CHR ''0'') = (k = 0)) [0..<10]"
    by code_simp
  with assms show "isDigit (digitChars ! k)" "digitVal (digitChars ! k) = k"
    "(digitChars ! k = CHR ''0'') = (k = 0)"
    by (simp_all add: list_all_iff)
qed

lemma isDigit_not_sign:
  assumes "isDigit c"
  shows "c \<noteq> CHR ''-''" and "c \<noteq> CHR ''+''" and "c \<noteq> CHR ''.''" and "c \<noteq> CHR ''e''"
    and "c \<noteq> CHR ''E''" and "c \<noteq> CHR ''{''" and "c \<noteq> CHR ''[''" and "c \<noteq> quoteChar"
  using assms by (auto simp: isDigit_def digitChars_def quoteChar_def)

lemma formatNat_small: "n < 10 \<Longrightarrow> formatNat n = [digitChars ! nat n]"
  by (simp add: formatNat.simps)

lemma formatNat_large:
  "\<not> n < 10 \<Longrightarrow> formatNat n = formatNat (n div 10) @ [digitChars ! nat (n mod 10)]"
  by (subst formatNat.simps) simp

lemma formatNat_digits: "0 \<le> n \<Longrightarrow> formatNat n \<noteq> [] \<and> list_all isDigit (formatNat n)"
proof (induction n rule: formatNat.induct)
  case (1 n)
  show ?case
  proof (cases "n < 10")
    case True
    with 1(2) have "nat n < 10" by simp
    then show ?thesis
      using True by (simp add: formatNat_small digitChars_nth)
  next
    case False
    have "nat (n mod 10) < 10" by simp
    moreover from False 1 have "list_all isDigit (formatNat (n div 10))" by simp
    ultimately show ?thesis
      using False by (simp add: formatNat_large digitChars_nth)
  qed
qed

lemma parseNat_snoc: "parseNat (ds @ [d]) = 10 * parseNat ds + int (digitVal d)"
  by (simp add: parseNat_def)

lemma parseNat_formatNat: "0 \<le> n \<Longrightarrow> parseNat (formatNat n) = n"
proof (induction n rule: formatNat.induct)
  case (1 n)
  show ?case
  proof (cases "n < 10")
    case True
    with 1(2) have "nat n < 10" by simp
    then show ?thesis
      using True 1(2) by (simp add: formatNat_small digitChars_nth parseNat_def)
  next
    case False
    have "nat (n mod 10) < 10" by simp
    moreover from False 1 have "parseNat (formatNat (n div 10)) = n div 10" by simp
    ultimately show ?thesis
      using False by (simp add: formatNat_large parseNat_snoc digitChars_nth)
  qed
qed

lemma formatNat_leading: "0 < n \<Longrightarrow> hd (formatNat n) \<noteq> CHR ''0''"
proof (induction n rule: formatNat.induct)
  case (1 n)
  show ?case
  proof (cases "n < 10")
    case True
    with 1(2) have "nat n < 10" "nat n \<noteq> 0" by simp_all
    then show ?thesis
      using True by (simp add: formatNat_small digitChars_nth)
  next
    case False
    then have "0 < n div 10" by simp
    with False 1 have "hd (formatNat (n div 10)) \<noteq> CHR ''0''" by simp
    moreover have "formatNat (n div 10) \<noteq> []"
      using formatNat_digits [of "n div 10"] False by simp
    ultimately show ?thesis
      using False by (simp add: formatNat_large)
  qed
qed

lemma formatNat_zero: "formatNat 0 = ''0''"
  by (simp add: formatNat_small digitChars_def)

lemma sint64_range: "- (2 ^ 63) \<le> sint (i :: int64)" "sint (i :: int64) < 2 ^ 63"
  using sint_ge [of i] sint_lt [of i] by simp_all

lemma ParseInt_FormatInt: "ParseInt (FormatInt i) = Some i"
proof (cases "sint i < 0")
  case True
  let ?ds = "formatNat (- sint i)"
  from True have d: "?ds \<noteq> []" "list_all isDigit ?ds" and p: "parseNat ?ds = - sint i"
    using formatNat_digits [of "- sint i"] parseNat_formatNat [of "- sint i"] by simp_all
  from sint64_range(1) [of i] have "\<not> 2 ^ 63 < - sint i" by simp
  with True d p show ?thesis
    by (simp add: ParseInt_def FormatInt_def)
next
  case False
  let ?ds = "formatNat (sint i)"
  from False have d: "?ds \<noteq> []" "list_all isDigit ?ds" and p: "parseNat ?ds = sint i"
    using formatNat_digits [of "sint i"] parseNat_formatNat [of "sint i"] by simp_all
  from d have "isDigit (hd ?ds)"
    by (cases ?ds) simp_all
  then have h: "hd ?ds \<noteq> CHR ''-''" "hd ?ds \<noteq> CHR ''+''"
    by (rule isDigit_not_sign)+
  from sint64_range(2) [of i] have "\<not> 2 ^ 63 \<le> sint i" by simp
  with False d p h show ?thesis
    by (simp add: ParseInt_def FormatInt_def)
qed

lemma FormatInt_chars:
  "FormatInt i \<noteq> []" "hd (FormatInt i) = CHR ''-'' \<or> isDigit (hd (FormatInt i))"
  "list_all (\<lambda>c. c = CHR ''-'' \<or> isDigit c) (FormatInt i)"
proof -
  have n: "formatNat (- sint i) \<noteq> [] \<and> list_all isDigit (formatNat (- sint i))"
    if "sint i < 0"
    using that formatNat_digits [of "- sint i"] by simp
  have p: "formatNat (sint i) \<noteq> [] \<and> list_all isDigit (formatNat (sint i))"
    if "\<not> sint i < 0"
    using that formatNat_digits [of "sint i"] by simp
  show "FormatInt i \<noteq> []"
    using n p by (simp add: FormatInt_def)
  show "hd (FormatInt i) = CHR ''-'' \<or> isDigit (hd (FormatInt i))"
    using p by (cases "formatNat (sint i)") (auto simp: FormatInt_def)
  show "list_all (\<lambda>c. c = CHR ''-'' \<or> isDigit c) (FormatInt i)"
    using n p by (auto simp: FormatInt_def list_all_iff)
qed

lemma takeWhile_digits:
  assumes "list_all isDigit ds" and "numberEnd rest"
  shows "takeWhile isDigit (ds @ rest) = ds" and "dropWhile isDigit (ds @ rest) = rest"
proof -
  from assms(2) have "rest = [] \<or> \<not> isDigit (hd rest)"
    by (auto simp: numberEnd_def isDigit_def digitChars_def)
  then have r: "takeWhile isDigit rest = []" "dropWhile isDigit rest = rest"
    by (cases rest; simp)+
  from assms(1) have a: "\<forall>x\<in>set ds. isDigit x"
    by (simp add: list_all_iff)
  show "takeWhile isDigit (ds @ rest) = ds"
    using a r by (simp add: takeWhile_append2)
  show "dropWhile isDigit (ds @ rest) = rest"
    using a r by (simp add: dropWhile_append2)
qed

lemma scanInt_formatNat:
  assumes "0 \<le> n" and "numberEnd rest"
  shows "scanInt (formatNat n @ rest) = Some (formatNat n, rest)"
proof (cases "n = 0")
  case True
  then show ?thesis
    by (simp add: formatNat_zero scanInt_def isDigit_def digitChars_def)
next
  case False
  with assms(1) have pos: "0 < n" by simp
  from formatNat_digits [OF assms(1)] obtain d ds where f: "formatNat n = d # ds"
    and d: "isDigit d" "list_all isDigit ds"
    by (cases "formatNat n") auto
  from formatNat_leading [OF pos] f have "d \<noteq> CHR ''0''" by simp
  with d takeWhile_digits [OF d(2) assms(2)] show ?thesis
    by (simp add: f scanInt_def)
qed

lemma scan_tail:
  assumes "numberEnd rest"
  shows "scanFrac rest = Some ([], rest)" and "scanExp rest = Some ([], rest)"
  using assms by (auto simp: numberEnd_def scanFrac_def scanExp_def split: list.splits)

lemma scanNumber_FormatInt:
  assumes "numberEnd rest"
  shows "scanNumber (FormatInt i @ rest) = Some (FormatInt i, rest)"
proof (cases "sint i < 0")
  case True
  then have "scanInt (formatNat (- sint i) @ rest) = Some (formatNat (- sint i), rest)"
    using scanInt_formatNat [OF _ assms, of "- sint i"] by simp
  with True show ?thesis
    by (simp add: scanNumber_def FormatInt_def scan_tail [OF assms])
next
  case False
  then have s: "scanInt (formatNat (sint i) @ rest) = Some (formatNat (sint i), rest)"
    using scanInt_formatNat [OF _ assms, of "sint i"] by simp
  from False formatNat_digits [of "sint i"] have "isDigit (hd (formatNat (sint i)))"
    "formatNat (sint i) \<noteq> []"
    by (cases "formatNat (sint i)"; simp)+
  then have "hd (formatNat (sint i) @ rest) \<noteq> CHR ''-''"
    using isDigit_not_sign(1) by (cases "formatNat (sint i)") auto
  with False s show ?thesis
    by (simp add: scanNumber_def FormatInt_def scan_tail [OF assms])
qed

subsection \<open>json: the scanner reads what Marshal writes\<close>

declare parseValue.simps [simp del] parseElements.simps [simp del] parseMembers.simps [simp del]

lemma skipSpace_nonspace: "\<not> isSpace c \<Longrightarrow> skipSpace (c # cs) = c # cs"
  by (simp add: skipSpace_def)

lemma skipSpace_Nil: "skipSpace [] = []"
  by (simp add: skipSpace_def)

lemma isDigit_not_space: "isDigit c \<Longrightarrow> \<not> isSpace c"
  by (auto simp: isDigit_def digitChars_def isSpace_def)

lemma punctuation_not_space:
  "\<not> isSpace quoteChar" "\<not> isSpace (CHR ''-'')" "\<not> isSpace (CHR '':'')"
  "\<not> isSpace (CHR '','')" "\<not> isSpace (CHR ''}'')" "\<not> isSpace (CHR ''{'')"
  by (simp_all add: isSpace_def quoteChar_def)

lemma scanString_plain:
  "list_all plainChar k \<Longrightarrow> scanString (k @ quoteChar # rest) = Some (k, rest)"
  by (induction k) (simp_all add: plainChar_def)

lemma unquote_plain: "list_all plainChar k \<Longrightarrow> unquote k = k"
  by (induction k) (simp_all add: plainChar_def unquote.simps(2))

lemma skipSpace_FormatInt: "skipSpace (FormatInt i @ rest) = FormatInt i @ rest"
proof -
  obtain c cs where f: "FormatInt i = c # cs"
    using FormatInt_chars(1) [of i] by (cases "FormatInt i") auto
  with FormatInt_chars(2) [of i] have "\<not> isSpace c"
    by (auto simp: isDigit_not_space punctuation_not_space)
  then show ?thesis
    by (simp add: f skipSpace_nonspace)
qed

lemma parseValue_FormatInt:
  assumes "numberEnd rest"
  shows "parseValue (Suc n) d (FormatInt i @ rest) = Scanned (JNumber (FormatInt i)) rest"
proof -
  obtain c cs where f: "FormatInt i = c # cs"
    using FormatInt_chars(1) [of i] by (cases "FormatInt i") auto
  with FormatInt_chars(2) [of i] have c: "c = CHR ''-'' \<or> isDigit c"
    by simp
  then have n: "c \<noteq> CHR ''{''" "c \<noteq> CHR ''[''" "c \<noteq> quoteChar"
    by (auto simp: isDigit_def digitChars_def quoteChar_def)
  have s: "scanNumber (c # cs @ rest) = Some (c # cs, rest)"
    using scanNumber_FormatInt [OF assms, of i] by (simp add: f)
  show ?thesis
    using c n s by (simp add: f parseValue.simps(2))
qed

lemma parseMembers_marshal:
  assumes "ms \<noteq> []" and "list_all (\<lambda>m. list_all plainChar (fst m)) ms"
    and "length ms < fuel"
  shows "parseMembers fuel d (marshalMembers ms @ CHR ''}'' # rest) =
    Scanned (numberMembers ms) rest"
  using assms
proof (induction ms arbitrary: fuel rule: marshalMembers.induct)
  case 1
  then show ?case by simp
next
  case (2 m)
  then obtain n where fuel: "fuel = Suc (Suc n)"
    by (cases fuel; simp) (metis Suc_lessE less_Suc_eq_0_disj not_less_eq)
  from 2 have k: "list_all plainChar (fst m)" by simp
  have t: "marshalMembers [m] @ CHR ''}'' # rest =
      quoteChar # (fst m @ quoteChar # CHR '':'' # (FormatInt (snd m) @ CHR ''}'' # rest))"
    by (simp add: marshalMember_def)
  have e: "numberEnd (CHR ''}'' # rest)"
    by (simp add: numberEnd_def)
  show ?case
    unfolding t fuel
    by (simp add: parseMembers.simps(2) scanString_plain [OF k] unquote_plain [OF k]
        skipSpace_nonspace punctuation_not_space skipSpace_FormatInt
        parseValue_FormatInt [OF e] numberMembers_def)
next
  case (3 m m' ms')
  then obtain n where fuel: "fuel = Suc n" and n: "length (m' # ms') < n" "0 < n"
    by (cases fuel) auto
  from n(2) obtain n' where n': "n = Suc n'"
    by (cases n) auto
  from 3 have k: "list_all plainChar (fst m)"
    and ks: "list_all (\<lambda>m. list_all plainChar (fst m)) (m' # ms')"
    by simp_all
  obtain tl' where q: "marshalMembers (m' # ms') = quoteChar # tl'"
    by (cases ms') (simp_all add: marshalMember_def)
  have t: "marshalMembers (m # m' # ms') @ CHR ''}'' # rest =
      quoteChar # (fst m @ quoteChar # CHR '':'' # (FormatInt (snd m) @ CHR '','' #
        (marshalMembers (m' # ms') @ CHR ''}'' # rest)))"
    by (simp add: marshalMember_def)
  have e: "numberEnd (CHR '','' # (marshalMembers (m' # ms') @ CHR ''}'' # rest))"
    by (simp add: numberEnd_def)
  have sk: "skipSpace (marshalMembers (m' # ms') @ CHR ''}'' # rest) =
      marshalMembers (m' # ms') @ CHR ''}'' # rest"
    by (simp add: q skipSpace_nonspace punctuation_not_space)
  have ih: "parseMembers n d (marshalMembers (m' # ms') @ CHR ''}'' # rest) =
      Scanned (numberMembers (m' # ms')) rest"
    using 3(1) [OF _ ks n(1)] by simp
  have v: "parseValue n d (FormatInt (snd m) @ CHR '','' #
        (marshalMembers (m' # ms') @ CHR ''}'' # rest)) =
      Scanned (JNumber (FormatInt (snd m)))
        (CHR '','' # (marshalMembers (m' # ms') @ CHR ''}'' # rest))"
    unfolding n' by (rule parseValue_FormatInt [OF e])
  show ?case
    unfolding t fuel
    by (simp add: parseMembers.simps(2) scanString_plain [OF k] unquote_plain [OF k]
        skipSpace_nonspace punctuation_not_space skipSpace_FormatInt v sk ih)
      (simp add: numberMembers_def)
qed

lemma length_marshalMembers: "length ms \<le> length (marshalMembers ms)"
  by (induction ms rule: marshalMembers.induct) (simp_all add: marshalMember_def)

lemma parseJSON_marshalObject:
  assumes "ms \<noteq> []" and "list_all (\<lambda>m. list_all plainChar (fst m)) ms"
  shows "parseJSON (marshalObject ms) = Some (JObject (numberMembers ms))"
proof -
  define F where "F = 2 * length (marshalObject ms)"
  obtain tl' where q: "marshalMembers ms = quoteChar # tl'"
    using assms(1)
    by (cases ms rule: marshalMembers.cases) (simp_all add: marshalMember_def)
  have t: "marshalObject ms = CHR ''{'' # (marshalMembers ms @ CHR ''}'' # [])"
    by (simp add: marshalObject_def)
  have l: "length ms < F"
    using length_marshalMembers [of ms] by (simp add: F_def t)
  have sk: "skipSpace (marshalMembers ms @ ''}'') = marshalMembers ms @ ''}''"
    by (simp add: q skipSpace_nonspace punctuation_not_space)
  have h: "hd (marshalMembers ms @ ''}'') \<noteq> CHR ''}''"
    by (simp add: q quoteChar_def)
  have pm: "parseMembers F (Suc 0) (marshalMembers ms @ ''}'') =
      Scanned (numberMembers ms) []"
    by (rule parseMembers_marshal [OF assms l])
  have p: "parseValue (Suc F) 0 (CHR ''{'' # (marshalMembers ms @ ''}'')) =
      Scanned (JObject (numberMembers ms)) []"
    using h by (simp add: parseValue.simps(2) sk maxNestingDepth_def pm)
  have "parseJSON (marshalObject ms) =
      (case parseValue (Suc F) 0 (skipSpace (marshalObject ms)) of
         Scanned v r \<Rightarrow> if skipSpace r = [] then Some v else None
       | _ \<Rightarrow> None)"
    by (simp add: parseJSON_def F_def)
  also have "skipSpace (marshalObject ms) = CHR ''{'' # (marshalMembers ms @ ''}'')"
    by (simp add: t skipSpace_nonspace punctuation_not_space)
  finally show ?thesis
    by (simp add: p skipSpace_Nil)
qed

subsection \<open>The tokens: decoding undoes encoding up to the second\<close>

lemma time_Unix_Unix: "time_Unix (Unix t) = truncSecond t"
  by (simp add: time_Unix_def Unix_def truncSecond_def)

lemma IsZero_zeroTime: "IsZero t \<Longrightarrow> t = zeroTime"
  by (simp add: IsZero_def zeroTime_def)

lemma truncSecond_zeroTime: "truncSecond zeroTime = zeroTime"
  by (simp add: truncSecond_def zeroTime_def)

lemma truncSecond_id: "truncSecond t = t \<longleftrightarrow> nsec t = 0"
proof
  assume "truncSecond t = t"
  then have "nsec (truncSecond t) = nsec t" by simp
  then show "nsec t = 0" by (simp add: truncSecond_def)
next
  assume "nsec t = 0"
  then show "truncSecond t = t" by (simp add: truncSecond_def)
qed

lemma findField_nextPage:
  "findField [''t'', ''o'', ''u'', ''v''] ''t'' = Some ''t''"
  "findField [''t'', ''o'', ''u'', ''v''] ''o'' = Some ''o''"
  "findField [''t'', ''o'', ''u'', ''v''] ''u'' = Some ''u''"
  "findField [''t'', ''o'', ''u'', ''v''] ''v'' = Some ''v''"
  by (simp_all add: findField_def)

lemma findField_sync:
  "findField [''t'', ''v''] ''t'' = Some ''t''"
  "findField [''t'', ''v''] ''v'' = Some ''v''"
  by (simp_all add: findField_def)

lemma parseJSON_token_objects:
  "parseJSON (marshalObject [(''o'', off), (''t'', t), (''v'', v)]) =
     Some (JObject (numberMembers [(''o'', off), (''t'', t), (''v'', v)]))"
  "parseJSON (marshalObject [(''o'', off), (''t'', t), (''u'', u), (''v'', v)]) =
     Some (JObject (numberMembers [(''o'', off), (''t'', t), (''u'', u), (''v'', v)]))"
  "parseJSON (marshalObject [(''t'', t), (''v'', v)]) =
     Some (JObject (numberMembers [(''t'', t), (''v'', v)]))"
  by (rule parseJSON_marshalObject; simp add: plainChar_def quoteChar_def backslash_def)+

lemma unmarshalNextPage_without_u:
  "unmarshalNextPage (marshalObject [(''o'', off), (''t'', t), (''v'', v)]) =
     Inr \<lparr>np_t = t, np_o = off, np_u = None, np_v = v\<rparr>"
  by (simp add: unmarshalNextPage_def parseJSON_token_objects
      numberMembers_def findField_nextPage ParseInt_FormatInt)

lemma unmarshalNextPage_with_u:
  "unmarshalNextPage (marshalObject [(''o'', off), (''t'', t), (''u'', u), (''v'', v)]) =
     Inr \<lparr>np_t = t, np_o = off, np_u = Some u, np_v = v\<rparr>"
  by (simp add: unmarshalNextPage_def parseJSON_token_objects
      numberMembers_def findField_nextPage ParseInt_FormatInt)

lemma unmarshalSync_marshal:
  "unmarshalSync (marshalObject [(''t'', t), (''v'', v)]) = Inr \<lparr>sy_t = t, sy_v = v\<rparr>"
  by (simp add: unmarshalSync_def parseJSON_token_objects
      numberMembers_def findField_sync ParseInt_FormatInt)

lemma nextPage_roundtrip:
  "NextPageToken_UnmarshalJSON zeroNextPageToken (nextPageText t) =
     Inr \<lparr>Timestamp = truncSecond (Timestamp t), UpdatedAfter = truncSecond (UpdatedAfter t),
          Offset = Offset t, ValidUntil = truncSecond (ValidUntil t)\<rparr>"
proof (cases "IsZero (UpdatedAfter t)")
  case True
  then have "truncSecond (UpdatedAfter t) = zeroTime"
    using IsZero_zeroTime [of "UpdatedAfter t"] by (simp add: truncSecond_zeroTime)
  with True show ?thesis
    by (simp add: NextPageToken_UnmarshalJSON_def nextPageText_def b64Decode_b64Encode
        nextPageJSON_def unmarshalNextPage_without_u time_Unix_Unix zeroNextPageToken_def)
next
  case False
  then show ?thesis
    by (simp add: NextPageToken_UnmarshalJSON_def nextPageText_def b64Decode_b64Encode
        nextPageJSON_def unmarshalNextPage_with_u time_Unix_Unix zeroNextPageToken_def)
qed

lemma sync_roundtrip:
  "SyncToken_UnmarshalJSON zeroSyncToken (syncText s) =
     Inr \<lparr>syncTimestamp = truncSecond (syncTimestamp s),
          syncValidUntil = truncSecond (syncValidUntil s)\<rparr>"
  by (simp add: SyncToken_UnmarshalJSON_def syncText_def b64Decode_b64Encode syncJSON_def
      unmarshalSync_marshal time_Unix_Unix zeroSyncToken_def)

text \<open>
  C10. Decoding the text of an encoded token, the base64 text between the quotes that
  \<^verbatim>\<open>MarshalJSON\<close> writes, keeps the offset and gives every timestamp truncated to whole
  seconds; an \<open>updated_after\<close> that is absent stays the zero time. So the state comes back
  unchanged exactly when none of its timestamps has a sub-second part.
\<close>

theorem roundtrip_truncates:
  "NextPageToken_MarshalJSON (Some t) = [quoteChar] @ nextPageText t @ [quoteChar]
   \<and> SyncToken_MarshalJSON (Some s) = [quoteChar] @ syncText s @ [quoteChar]
   \<and> NextPageToken_UnmarshalJSON zeroNextPageToken (nextPageText t) =
       Inr \<lparr>Timestamp = truncSecond (Timestamp t), UpdatedAfter = truncSecond (UpdatedAfter t),
            Offset = Offset t, ValidUntil = truncSecond (ValidUntil t)\<rparr>
   \<and> SyncToken_UnmarshalJSON zeroSyncToken (syncText s) =
       Inr \<lparr>syncTimestamp = truncSecond (syncTimestamp s),
            syncValidUntil = truncSecond (syncValidUntil s)\<rparr>
   \<and> (NextPageToken_UnmarshalJSON zeroNextPageToken (nextPageText t) = Inr t \<longleftrightarrow>
        nsec (Timestamp t) = 0 \<and> nsec (UpdatedAfter t) = 0 \<and> nsec (ValidUntil t) = 0)
   \<and> (SyncToken_UnmarshalJSON zeroSyncToken (syncText s) = Inr s \<longleftrightarrow>
        nsec (syncTimestamp s) = 0 \<and> nsec (syncValidUntil s) = 0)"
proof -
  have n: "(\<lparr>Timestamp = truncSecond (Timestamp t), UpdatedAfter = truncSecond (UpdatedAfter t),
            Offset = Offset t, ValidUntil = truncSecond (ValidUntil t)\<rparr> = t) =
      (truncSecond (Timestamp t) = Timestamp t \<and> truncSecond (UpdatedAfter t) = UpdatedAfter t
        \<and> truncSecond (ValidUntil t) = ValidUntil t)"
    by (cases t) auto
  have y: "(\<lparr>syncTimestamp = truncSecond (syncTimestamp s),
            syncValidUntil = truncSecond (syncValidUntil s)\<rparr> = s) =
      (truncSecond (syncTimestamp s) = syncTimestamp s
        \<and> truncSecond (syncValidUntil s) = syncValidUntil s)"
    by (cases s) auto
  show ?thesis
    by (simp add: nextPage_roundtrip sync_roundtrip n y truncSecond_id
        NextPageToken_MarshalJSON_def SyncToken_MarshalJSON_def)
qed

text \<open>
  C3, as the claim states it, fails for a timestamp with a sub-second part: the sync
  token made at 5 nanoseconds past a second decodes to the full second.
\<close>

theorem roundtrip_subsecond_counterexample:
  "SyncToken_UnmarshalJSON zeroSyncToken
     (syncText \<lparr>syncTimestamp = \<lparr>sec = 63835596800, nsec = 5\<rparr>,
                syncValidUntil = \<lparr>sec = 63835683200, nsec = 0\<rparr>\<rparr>) =
     Inr \<lparr>syncTimestamp = \<lparr>sec = 63835596800, nsec = 0\<rparr>,
          syncValidUntil = \<lparr>sec = 63835683200, nsec = 0\<rparr>\<rparr>
   \<and> SyncToken_UnmarshalJSON zeroSyncToken
     (syncText \<lparr>syncTimestamp = \<lparr>sec = 63835596800, nsec = 5\<rparr>,
                syncValidUntil = \<lparr>sec = 63835683200, nsec = 0\<rparr>\<rparr>) \<noteq>
     Inr \<lparr>syncTimestamp = \<lparr>sec = 63835596800, nsec = 5\<rparr>,
          syncValidUntil = \<lparr>sec = 63835683200, nsec = 0\<rparr>\<rparr>"
  by code_simp

text \<open>
  C3, amended. For a state of either kind whose timestamps are whole seconds, decoding
  the text of the encoded token returns the state; this includes the next-page token
  whose \<open>updated_after\<close> is absent (the zero time).
\<close>

theorem roundtrip_whole_seconds:
  "(nsec (Timestamp t) = 0 \<and> nsec (UpdatedAfter t) = 0 \<and> nsec (ValidUntil t) = 0 \<longrightarrow>
      NextPageToken_UnmarshalJSON zeroNextPageToken (nextPageText t) = Inr t)
   \<and> (nsec (syncTimestamp s) = 0 \<and> nsec (syncValidUntil s) = 0 \<longrightarrow>
      SyncToken_UnmarshalJSON zeroSyncToken (syncText s) = Inr s)"
proof -
  have "truncSecond x = x" if "nsec x = 0" for x
    using that by (simp add: truncSecond_id)
  then show ?thesis
    by (simp add: nextPage_roundtrip sync_roundtrip)
qed

theorem roundtrip_whole_seconds_witness:
  "nsec (Timestamp \<lparr>Timestamp = \<lparr>sec = 63835596800, nsec = 0\<rparr>, UpdatedAfter = zeroTime,
        Offset = 10, ValidUntil = \<lparr>sec = 63835683200, nsec = 0\<rparr>\<rparr>) = 0
   \<and> NextPageToken_UnmarshalJSON zeroNextPageToken
       (nextPageText \<lparr>Timestamp = \<lparr>sec = 63835596800, nsec = 0\<rparr>, UpdatedAfter = zeroTime,
          Offset = 10, ValidUntil = \<lparr>sec = 63835683200, nsec = 0\<rparr>\<rparr>) =
       Inr \<lparr>Timestamp = \<lparr>sec = 63835596800, nsec = 0\<rparr>, UpdatedAfter = zeroTime,
          Offset = 10, ValidUntil = \<lparr>sec = 63835683200, nsec = 0\<rparr>\<rparr>
   \<and> SyncToken_UnmarshalJSON zeroSyncToken
       (syncText \<lparr>syncTimestamp = \<lparr>sec = 63835596800, nsec = 0\<rparr>,
          syncValidUntil = \<lparr>sec = 63835683200, nsec = 0\<rparr>\<rparr>) =
       Inr \<lparr>syncTimestamp = \<lparr>sec = 63835596800, nsec = 0\<rparr>,
          syncValidUntil = \<lparr>sec = 63835683200, nsec = 0\<rparr>\<rparr>"
  using roundtrip_whole_seconds [of
      "\<lparr>Timestamp = \<lparr>sec = 63835596800, nsec = 0\<rparr>, UpdatedAfter = zeroTime,
        Offset = 10, ValidUntil = \<lparr>sec = 63835683200, nsec = 0\<rparr>\<rparr>"
      "\<lparr>syncTimestamp = \<lparr>sec = 63835596800, nsec = 0\<rparr>,
        syncValidUntil = \<lparr>sec = 63835683200, nsec = 0\<rparr>\<rparr>"]
  by (simp add: zeroTime_def)

subsection \<open>The offsets along a chain of next-page tokens\<close>

lemma sint_add_of_nat:
  fixes a :: int64
  assumes "sint a + int n < 2 ^ 63"
  shows "sint (a + of_nat n) = sint a + int n"
proof -
  have lo: "- (2 ^ 63) \<le> sint a + int n"
    using sint64_range(1) [of a] by simp
  have "a + of_nat n = word_of_int (sint a + int n)"
    by simp
  then have "sint (a + of_nat n) = signed_take_bit 63 (sint a + int n)"
    by (simp only: sint_sbintrunc') simp
  also have "\<dots> = sint a + int n"
    using lo assms by (simp add: signed_take_bit_int_eq_self)
  finally show ?thesis .
qed

lemma decoded_nextPage_whole_seconds:
  assumes "NextPageToken_UnmarshalJSON zeroNextPageToken text = Inr tok"
  shows "nsec (Timestamp tok) = 0"
  using assms
  by (auto simp: NextPageToken_UnmarshalJSON_def time_Unix_def
      split: option.splits sum.splits)

text \<open>
  C6. A request that continues a pass with a next-page token and is answered with a new
  next-page token: the new token has the snapshot time of the old one, and its offset is
  the offset decoded from the old one plus the number of records of the page, in the
  arithmetic of Go's \<^verbatim>\<open>int\<close>. Short of an overflow of that sum (which needs a table of
  more than \<open>2^63\<close> rows) the offset does not decrease. The text of the new token, sent
  with the next request, decodes to the same offset and snapshot time, so the statement
  carries along the whole chain.
\<close>

theorem offset_chain:
  assumes "q_sync_token r = []" and "q_next_page_token r \<noteq> []"
    and "NextPageToken_UnmarshalJSON zeroNextPageToken (q_next_page_token r) = Inr prev"
    and "status (listHandler db clk r) = StatusOK"
    and "body (listHandler db clk r) = Listing lr"
    and "next_page_token lr = Some tok"
  shows "Timestamp tok = Timestamp prev
    \<and> Offset tok = Offset prev + of_nat (length (users lr))
    \<and> (sint (Offset prev) + int (length (users lr)) < 2 ^ 63 \<longrightarrow>
         sint (Offset tok) = sint (Offset prev) + int (length (users lr))
         \<and> sint (Offset prev) \<le> sint (Offset tok))
    \<and> (\<exists>next. NextPageToken_UnmarshalJSON zeroNextPageToken (nextPageText tok) = Inr next
         \<and> Offset next = Offset tok \<and> Timestamp next = Timestamp tok)"
proof -
  from assms(4) obtain vars us where c: "readCursor clk r = Inr vars"
    and r: "listHandler db clk r =
      \<lparr>status = StatusOK,
       body = Listing \<lparr>users = us,
         next_page_token = nextPageToken (continuation clk vars (readMaxResults r) us),
         sync_token = syncToken (continuation clk vars (readMaxResults r) us)\<rparr>\<rparr>"
    by (rule listHandler_ok)
  from c assms(1-3) have e: "\<not> Before (ValidUntil prev) (now_expiry clk)"
    by (auto simp: readCursor_def split: if_splits)
  from c have vars: "vars = \<lparr>tableInPointOfTime = Timestamp prev, tableLocation = time_Local clk,
      onlyNewerThan = UpdatedAfter prev, offset = Offset prev,
      nextPageToken = None, syncToken = None\<rparr>"
    by (simp add: readCursor_nextPage [OF assms(1-3) e])
  from assms(5) r have lr: "lr = \<lparr>users = us,
         next_page_token = nextPageToken (continuation clk vars (readMaxResults r) us),
         sync_token = syncToken (continuation clk vars (readMaxResults r) us)\<rparr>"
    by simp
  from assms(6) have tok: "tok = \<lparr>Timestamp = Timestamp prev,
      UpdatedAfter = UpdatedAfter prev, Offset = Offset prev + of_nat (length us),
      ValidUntil = AddDate_0_0_1 (time_Local clk) (now_issue clk)\<rparr>"
    unfolding lr vars by (auto simp: continuation_def split: if_splits)
  have u: "users lr = us"
    by (simp add: lr)
  have 1: "Timestamp tok = Timestamp prev"
    and 2: "Offset tok = Offset prev + of_nat (length (users lr))"
    by (simp_all add: tok u)
  have 3: "sint (Offset tok) = sint (Offset prev) + int (length (users lr))
      \<and> sint (Offset prev) \<le> sint (Offset tok)"
    if "sint (Offset prev) + int (length (users lr)) < 2 ^ 63"
    using sint_add_of_nat [OF that] by (simp add: 2)
  have "truncSecond (Timestamp tok) = Timestamp tok"
    using decoded_nextPage_whole_seconds [OF assms(3)] by (simp add: 1 truncSecond_id)
  then have 4: "\<exists>next. NextPageToken_UnmarshalJSON zeroNextPageToken (nextPageText tok) =
      Inr next \<and> Offset next = Offset tok \<and> Timestamp next = Timestamp tok"
    by (simp add: nextPage_roundtrip)
  from 1 2 3 4 show ?thesis by blast
qed

theorem offset_chain_witness:
  "q_sync_token (nextPageRequest nextPageTextLive ''1'') = []
   \<and> q_next_page_token (nextPageRequest nextPageTextLive ''1'') \<noteq> []
   \<and> NextPageToken_UnmarshalJSON zeroNextPageToken
       (q_next_page_token (nextPageRequest nextPageTextLive ''1'')) =
       Inr \<lparr>Timestamp = \<lparr>sec = 63835596800, nsec = 0\<rparr>, UpdatedAfter = \<lparr>sec = 0, nsec = 0\<rparr>,
            Offset = 1, ValidUntil = \<lparr>sec = 63835683200, nsec = 0\<rparr>\<rparr>
   \<and> listHandler (tableDB [someUser, someUser, someUser]) clock0
       (nextPageRequest nextPageTextLive ''1'') =
       \<lparr>status = StatusOK, body = Listing \<lparr>users = [someUser],
          next_page_token = Some \<lparr>Timestamp = \<lparr>sec = 63835596800, nsec = 0\<rparr>,
            UpdatedAfter = \<lparr>sec = 0, nsec = 0\<rparr>, Offset = 2,
            ValidUntil = AddDate_0_0_1 (time_Local clock0) (now_issue clock0)\<rparr>,
          sync_token = None\<rparr>\<rparr>
   \<and> (\<exists>next. NextPageToken_UnmarshalJSON zeroNextPageToken
         (nextPageText \<lparr>Timestamp = \<lparr>sec = 63835596800, nsec = 0\<rparr>,
            UpdatedAfter = \<lparr>sec = 0, nsec = 0\<rparr>, Offset = 2,
            ValidUntil = AddDate_0_0_1 (time_Local clock0) (now_issue clock0)\<rparr>) = Inr next
        \<and> Offset next = 2)"
proof -
  let ?r = "nextPageRequest nextPageTextLive ''1''"
  let ?prev = "\<lparr>Timestamp = \<lparr>sec = 63835596800, nsec = 0\<rparr>,
      UpdatedAfter = \<lparr>sec = 0, nsec = 0\<rparr>,
      Offset = 1, ValidUntil = \<lparr>sec = 63835683200, nsec = 0\<rparr>\<rparr>"
  let ?tok = "\<lparr>Timestamp = \<lparr>sec = 63835596800, nsec = 0\<rparr>,
      UpdatedAfter = \<lparr>sec = 0, nsec = 0\<rparr>, Offset = 2,
      ValidUntil = AddDate_0_0_1 (time_Local clock0) (now_issue clock0)\<rparr>"
  let ?lr = "\<lparr>users = [someUser], next_page_token = Some ?tok, sync_token = None\<rparr>"
  have a: "q_sync_token ?r = []" and b: "q_next_page_token ?r \<noteq> []"
    by (simp_all add: nextPageRequest_def example_texts_nonempty)
  have d: "NextPageToken_UnmarshalJSON zeroNextPageToken (q_next_page_token ?r) = Inr ?prev"
    by (simp add: nextPageRequest_def nextPageTextLive_decoded)
  have x: "\<not> Before (ValidUntil ?prev) (now_expiry clock0)"
    by (simp add: Before_def clock0_def)
  have m: "readMaxResults ?r = 1"
    by (simp add: readMaxResults_def nextPageRequest_def ParseInt_def isDigit_def
        digitChars_def parseNat_def digitVal_def)
  have h: "listHandler (tableDB [someUser, someUser, someUser]) clock0 ?r =
      \<lparr>status = StatusOK, body = Listing ?lr\<rparr>"
    by (simp add: listHandler_def readCursor_nextPage [OF a b d x] m buildQuery_def
        tableDB_def IsZero_def continuation_def)
  have s: "status (listHandler (tableDB [someUser, someUser, someUser]) clock0 ?r) = StatusOK"
    and l: "body (listHandler (tableDB [someUser, someUser, someUser]) clock0 ?r) = Listing ?lr"
    by (simp_all add: h)
  have t: "next_page_token ?lr = Some ?tok"
    by simp
  from offset_chain [OF a b d s l t]
  have "\<exists>next. NextPageToken_UnmarshalJSON zeroNextPageToken (nextPageText ?tok) = Inr next
      \<and> Offset next = 2"
    by auto
  with a b d h show ?thesis by simp
qed

subsection \<open>json: the fuel of the scanner is never used up\<close>

lemma length_skipSpace: "length (skipSpace s) \<le> length s"
  by (simp add: skipSpace_def length_dropWhile_le)

lemma skipSpace_Cons_shorter: "skipSpace r = c # r' \<Longrightarrow> length r' < length r"
  using length_skipSpace [of r] by simp

lemma scanString_shorter: "scanString cs = Some (b, r) \<Longrightarrow> length r < length cs"
proof (induction cs arbitrary: b r rule: length_induct)
  case (1 cs)
  note ih = 1(1) and a = 1(2)
  show ?case
  proof (cases cs)
    case Nil
    with a show ?thesis by simp
  next
    case (Cons c t)
    show ?thesis
    proof (cases "c = quoteChar")
      case True
      with a Cons show ?thesis by simp
    next
      case nq: False
      show ?thesis
      proof (cases "c = backslash")
        case False
        with a Cons nq obtain b' where "scanString t = Some (b', r)"
          by (auto split: if_splits)
        with ih Cons have "length r < length t" by simp
        with Cons show ?thesis by simp
      next
        case True
        with a Cons nq obtain e es where t: "t = e # es"
          by (cases t) auto
        show ?thesis
        proof (cases "e = CHR ''u''")
          case False
          with a Cons nq True t obtain b' where "scanString es = Some (b', r)"
            by (auto split: if_splits)
          with ih Cons t have "length r < length es" by simp
          with Cons t show ?thesis by simp
        next
          case u: True
          have ne: "e \<notin> set [CHR ''b'', CHR ''f'', CHR ''n'', CHR ''r'', CHR ''t'',
              backslash, CHR ''/'', quoteChar]"
            by (simp add: u backslash_def quoteChar_def)
          from a Cons nq True t u ne obtain h1 h2 h3 h4 r0 where es: "es = h1 # h2 # h3 # h4 # r0"
            by (cases es rule: scanString.cases) (auto split: list.splits)
          with a Cons nq True t u ne obtain b' where "scanString r0 = Some (b', r)"
            by (auto split: if_splits)
          with ih Cons t es have "length r < length r0" by simp
          with Cons t es show ?thesis by simp
        qed
      qed
    qed
  qed
qed

lemma scanInt_shorter: "scanInt s = Some (ip, r) \<Longrightarrow> length r < length s"
proof (cases s)
  case Nil
  then show "scanInt s = Some (ip, r) \<Longrightarrow> length r < length s"
    by (simp add: scanInt_def)
next
  case (Cons d ds)
  assume "scanInt s = Some (ip, r)"
  with Cons length_dropWhile_le [of isDigit ds] show "length r < length s"
    by (auto simp: scanInt_def split: if_splits)
qed

lemma scanFrac_shorter: "scanFrac s = Some (fp, r) \<Longrightarrow> length r \<le> length s"
proof (cases s)
  case Nil
  then show "scanFrac s = Some (fp, r) \<Longrightarrow> length r \<le> length s"
    by (simp add: scanFrac_def)
next
  case (Cons p f)
  assume "scanFrac s = Some (fp, r)"
  with Cons length_dropWhile_le [of isDigit f] show "length r \<le> length s"
    by (auto simp: scanFrac_def split: if_splits)
qed

lemma scanExp_shorter: "scanExp s = Some (ep, r) \<Longrightarrow> length r \<le> length s"
proof (cases s)
  case Nil
  then show "scanExp s = Some (ep, r) \<Longrightarrow> length r \<le> length s"
    by (simp add: scanExp_def)
next
  case (Cons e t)
  assume a: "scanExp s = Some (ep, r)"
  have "length (dropWhile isDigit (drop k t)) \<le> length t" for k
    using length_dropWhile_le [of isDigit "drop k t"] by simp
  from this [of 0] this [of 1] a Cons show "length r \<le> length s"
    by (auto simp: scanExp_def Let_def split: if_splits)
qed

lemma scanNumber_shorter: "scanNumber s = Some (lit, r) \<Longrightarrow> length r < length s"
proof -
  assume a: "scanNumber s = Some (lit, r)"
  let ?sg = "if s \<noteq> [] \<and> hd s = CHR ''-'' then ''-'' else []"
  from a obtain ip s1 fp s2 ep where i: "scanInt (drop (length ?sg) s) = Some (ip, s1)"
    and f: "scanFrac s1 = Some (fp, s2)" and e: "scanExp s2 = Some (ep, r)"
    by (auto simp: scanNumber_def Let_def split: option.splits)
  from scanInt_shorter [OF i] have "length s1 < length s" by simp
  with scanFrac_shorter [OF f] scanExp_shorter [OF e] show ?thesis by simp
qed

lemma scan_shorter:
  "(parseValue n d s = Scanned v r \<longrightarrow> length r < length s)
   \<and> (parseElements n d s = Scanned vs r' \<longrightarrow> length r' < length s)
   \<and> (parseMembers n d s = Scanned kvs r'' \<longrightarrow> length r'' < length s)"
proof (induction n arbitrary: d s v r vs r' kvs r'')
  case 0
  show ?case by (simp add: parseValue.simps parseElements.simps parseMembers.simps)
next
  case (Suc n)
  have V: "length r < length s" if "parseValue n d s = Scanned v r" for d s v r
    using Suc that by blast
  have E: "length r < length s" if "parseElements n d s = Scanned vs r" for d s vs r
    using Suc that by blast
  have M: "length r < length s" if "parseMembers n d s = Scanned kvs r" for d s kvs r
    using Suc that by blast
  have 1: "length r < length s" if a: "parseValue (Suc n) d s = Scanned v r"
  proof (cases s)
    case Nil
    with a show ?thesis by (simp add: parseValue.simps)
  next
    case (Cons c cs)
    have sk: "length (skipSpace cs) \<le> length cs" by (rule length_skipSpace)
    consider (obj) "c = CHR ''{''" | (arr) "c \<noteq> CHR ''{''" "c = CHR ''[''"
      | (str) "c \<noteq> CHR ''{''" "c \<noteq> CHR ''[''" "c = quoteChar"
      | (num) "c \<noteq> CHR ''{''" "c \<noteq> CHR ''[''" "c \<noteq> quoteChar" "c = CHR ''-'' \<or> isDigit c"
      | (lit) "c \<noteq> CHR ''{''" "c \<noteq> CHR ''[''" "c \<noteq> quoteChar" "\<not> (c = CHR ''-'' \<or> isDigit c)"
      by blast
    then show ?thesis
    proof cases
      case obj
      with a Cons sk show ?thesis
        by (auto simp: parseValue.simps(2) split: if_splits scan.splits dest!: M)
    next
      case arr
      with a Cons sk show ?thesis
        by (auto simp: parseValue.simps(2) split: if_splits scan.splits dest!: E)
    next
      case str
      with a Cons show ?thesis
        by (auto simp: parseValue.simps(2) split: option.splits dest!: scanString_shorter)
    next
      case num
      with a Cons show ?thesis
        by (auto simp: parseValue.simps(2) split: option.splits dest!: scanNumber_shorter)
    next
      case lit
      with a Cons show ?thesis
        by (auto simp: parseValue.simps(2) split: if_splits)
    qed
  qed
  have 2: "length r' < length s" if a: "parseElements (Suc n) d s = Scanned vs r'"
  proof -
    from a obtain v r where p: "parseValue n d s = Scanned v r"
      by (auto simp: parseElements.simps(2) split: scan.splits)
    from a p obtain c r1 where k: "skipSpace r = c # r1"
      by (auto simp: parseElements.simps(2) split: list.splits)
    from V [OF p] skipSpace_Cons_shorter [OF k] have l: "length r1 < length s" by simp
    from a p k l length_skipSpace [of r1] show ?thesis
      by (auto simp: parseElements.simps(2) split: if_splits scan.splits dest!: E)
  qed
  have 3: "length r'' < length s" if a: "parseMembers (Suc n) d s = Scanned kvs r''"
  proof -
    from a obtain cs where s: "s = quoteChar # cs"
      by (auto simp: parseMembers.simps(2) split: list.splits if_splits)
    from a s obtain b r where q: "scanString cs = Some (b, r)"
      by (auto simp: parseMembers.simps(2) split: option.splits)
    from a s q obtain r1 where k: "skipSpace r = CHR '':'' # r1"
      by (auto simp: parseMembers.simps(2) split: list.splits if_splits)
    from a s q k obtain v r2 where p: "parseValue n d (skipSpace r1) = Scanned v r2"
      by (auto simp: parseMembers.simps(2) split: scan.splits)
    from a s q k p obtain c r3 where k2: "skipSpace r2 = c # r3"
      by (auto simp: parseMembers.simps(2) split: list.splits)
    from scanString_shorter [OF q] skipSpace_Cons_shorter [OF k] V [OF p]
      length_skipSpace [of r1] skipSpace_Cons_shorter [OF k2]
    have l: "length r3 < length s" by (simp add: s)
    from a s q k p k2 l length_skipSpace [of r3] show ?thesis
      by (auto simp: parseMembers.simps(2) split: if_splits scan.splits dest!: M)
  qed
  from 1 2 3 show ?case by blast
qed

lemma scan_fuel:
  "(2 * length s < n \<longrightarrow> parseValue n d s \<noteq> OutOfFuel)
   \<and> (2 * length s + 1 < n \<longrightarrow> parseElements n d s \<noteq> OutOfFuel)
   \<and> (2 * length s < n \<longrightarrow> parseMembers n d s \<noteq> OutOfFuel)"
proof (induction n arbitrary: d s)
  case 0
  show ?case by simp
next
  case (Suc n)
  have V: "parseValue n d s \<noteq> OutOfFuel" if "2 * length s < n" for d s
    using Suc that by blast
  have E: "parseElements n d s \<noteq> OutOfFuel" if "2 * length s + 1 < n" for d s
    using Suc that by blast
  have M: "parseMembers n d s \<noteq> OutOfFuel" if "2 * length s < n" for d s
    using Suc that by blast
  have 1: "parseValue (Suc n) d s \<noteq> OutOfFuel" if l: "2 * length s < Suc n"
  proof (cases s)
    case Nil
    then show ?thesis by (simp add: parseValue.simps(2))
  next
    case (Cons c cs)
    from l Cons length_skipSpace [of cs] have b: "2 * length (skipSpace cs) + 1 < n"
      by simp
    then have b': "2 * length (skipSpace cs) < n"
      by simp
    consider (obj) "c = CHR ''{''" | (arr) "c \<noteq> CHR ''{''" "c = CHR ''[''"
      | (other) "c \<noteq> CHR ''{''" "c \<noteq> CHR ''[''"
      by blast
    then show ?thesis
    proof cases
      case obj
      with Cons M [OF b', of "Suc d"] show ?thesis
        by (auto simp: parseValue.simps(2) split: scan.splits)
    next
      case arr
      with Cons E [OF b, of "Suc d"] show ?thesis
        by (auto simp: parseValue.simps(2) split: scan.splits)
    next
      case other
      with Cons show ?thesis
        by (auto simp: parseValue.simps(2) split: option.splits)
    qed
  qed
  have 2: "parseElements (Suc n) d s \<noteq> OutOfFuel" if l: "2 * length s + 1 < Suc n"
  proof
    assume o: "parseElements (Suc n) d s = OutOfFuel"
    from l have lv: "2 * length s < n" by simp
    show False
    proof (cases "parseValue n d s")
      case OutOfFuel
      with V [OF lv] show False by simp
    next
      case Invalid
      with o show False by (simp add: parseElements.simps(2))
    next
      case (Scanned v r)
      from scan_shorter [of n d s v r] Scanned have lr: "length r < length s" by blast
      show False
      proof (cases "skipSpace r")
        case Nil
        with o Scanned show False by (simp add: parseElements.simps(2))
      next
        case (Cons c r1)
        with o Scanned have p: "parseElements n d (skipSpace r1) = OutOfFuel"
          by (auto simp: parseElements.simps(2) split: if_splits scan.splits)
        from skipSpace_Cons_shorter [OF Cons] lr length_skipSpace [of r1] l
        have "2 * length (skipSpace r1) + 1 < n" by simp
        from E [OF this] p show False by simp
      qed
    qed
  qed
  have 3: "parseMembers (Suc n) d s \<noteq> OutOfFuel" if l: "2 * length s < Suc n"
  proof
    assume o: "parseMembers (Suc n) d s = OutOfFuel"
    from o obtain cs where s: "s = quoteChar # cs"
      by (auto simp: parseMembers.simps(2) split: list.splits if_splits)
    from o s obtain b r where q: "scanString cs = Some (b, r)"
      by (auto simp: parseMembers.simps(2) split: option.splits)
    from o s q obtain r1 where k: "skipSpace r = CHR '':'' # r1"
      by (auto simp: parseMembers.simps(2) split: list.splits if_splits)
    from scanString_shorter [OF q] skipSpace_Cons_shorter [OF k] length_skipSpace [of r1] s
    have l1: "length (skipSpace r1) < length s" by simp
    with l have lv: "2 * length (skipSpace r1) < n" by simp
    show False
    proof (cases "parseValue n d (skipSpace r1)")
      case OutOfFuel
      with V [OF lv] show False by simp
    next
      case Invalid
      with o s q k show False by (simp add: parseMembers.simps(2))
    next
      case (Scanned v r2)
      from scan_shorter [of n d "skipSpace r1" v r2] Scanned
      have lr: "length r2 < length (skipSpace r1)" by blast
      show False
      proof (cases "skipSpace r2")
        case Nil
        with o s q k Scanned show False by (simp add: parseMembers.simps(2))
      next
        case (Cons c r3)
        with o s q k Scanned have p: "parseMembers n d (skipSpace r3) = OutOfFuel"
          by (auto simp: parseMembers.simps(2) split: if_splits scan.splits)
        from skipSpace_Cons_shorter [OF Cons] lr l1 length_skipSpace [of r3] l
        have "2 * length (skipSpace r3) < n" by simp
        from M [OF this] p show False by simp
      qed
    qed
  qed
  from 1 2 3 show ?case by blast
qed

lemma parseJSON_fuel: "parseValue (Suc (2 * length data)) 0 (skipSpace data) \<noteq> OutOfFuel"
proof -
  have "2 * length (skipSpace data) < Suc (2 * length data)"
    using length_skipSpace [of data] by simp
  with scan_fuel [of "skipSpace data" "Suc (2 * length data)" 0] show ?thesis
    by blast
qed

subsection \<open>The characters of a token\<close>

lemma low_arith:
  fixes a b c :: nat
  assumes "a < 128" and "b < 128" and "c < 128" and "c mod 64 < 62"
  shows "a div 4 < 62" and "(a mod 4) * 16 + b div 16 < 62"
    and "(b mod 16) * 4 + c div 64 < 62"
proof -
  from assms have a: "a div 4 < 32" and b: "b div 16 < 8" and c: "c div 64 < 2"
    by (simp_all add: less_mult_imp_div_less)
  have a4: "a mod 4 < 4" and b16: "b mod 16 < 16" by simp_all
  show "a div 4 < 62" using a by simp
  show "(a mod 4) * 16 + b div 16 < 62" using a4 b by linarith
  show "(b mod 16) * 4 + c div 64 < 62" using b16 c by linarith
qed

lemma encodeStd_nth_alnum:
  assumes "n < 62" shows "encodeStd ! n \<in> set (take 62 encodeStd)"
proof -
  have "length (take 62 encodeStd) = 62"
    by (simp add: encodeStd_def)
  with assms have "take 62 encodeStd ! n \<in> set (take 62 encodeStd)"
    by (simp only: nth_mem)
  with assms show ?thesis
    by simp
qed

lemma b64Encode_alnum:
  "list_all lowByte bs \<Longrightarrow> set (b64Encode bs) \<subseteq> insert padChar (set (take 62 encodeStd))"
proof (induction bs rule: b64Encode.induct)
  case (1 x y z rest)
  then have lt: "(of_char x :: nat) < 128" "(of_char y :: nat) < 128" "(of_char z :: nat) < 128"
    "(of_char z :: nat) mod 64 < 62"
    by (simp_all add: lowByte_def)
  note q = low_arith [OF lt, THEN encodeStd_nth_alnum] lt(4) [THEN encodeStd_nth_alnum]
  from 1 have ih: "set (b64Encode rest) \<subseteq> insert padChar (set (take 62 encodeStd))"
    by simp
  have e: "set (b64Encode (x # y # z # rest)) =
      {encodeStd ! ((of_char x :: nat) div 4),
       encodeStd ! (((of_char x :: nat) mod 4) * 16 + (of_char y :: nat) div 16),
       encodeStd ! (((of_char y :: nat) mod 16) * 4 + (of_char z :: nat) div 64),
       encodeStd ! ((of_char z :: nat) mod 64)} \<union> set (b64Encode rest)"
    by (simp add: Let_def)
  show ?case
    unfolding e using q ih by blast
next
  case (2 x y)
  then have lt: "(of_char x :: nat) < 128" "(of_char y :: nat) < 128" "(0::nat) < 128"
    "(0::nat) mod 64 < 62"
    by (simp_all add: lowByte_def)
  note q = low_arith [OF lt, THEN encodeStd_nth_alnum]
  have e: "set (b64Encode [x, y]) =
      {encodeStd ! ((of_char x :: nat) div 4),
       encodeStd ! (((of_char x :: nat) mod 4) * 16 + (of_char y :: nat) div 16),
       encodeStd ! (((of_char y :: nat) mod 16) * 4 + 0 div 64), padChar}"
    by (simp add: Let_def)
  show ?case
    unfolding e using q by blast
next
  case (3 x)
  then have lt: "(of_char x :: nat) < 128" "(0::nat) < 128" "(0::nat) < 128"
    "(0::nat) mod 64 < 62"
    by (simp_all add: lowByte_def)
  note q = low_arith(1-2) [OF lt, THEN encodeStd_nth_alnum]
  have e: "set (b64Encode [x]) =
      {encodeStd ! ((of_char x :: nat) div 4),
       encodeStd ! (((of_char x :: nat) mod 4) * 16 + 0 div 16), padChar}"
    by (simp add: Let_def)
  show ?case
    unfolding e using q by blast
next
  case 4
  show ?case by simp
qed

lemma FormatInt_low: "list_all lowByte (FormatInt i)"
proof -
  have "lowByte c" if "c = CHR ''-'' \<or> isDigit c" for c
    using that by (auto simp: isDigit_def digitChars_def lowByte_def)
  with FormatInt_chars(3) [of i] show ?thesis
    by (simp add: list_all_iff)
qed

lemma marshalMember_low:
  "list_all lowByte (fst m) \<Longrightarrow> list_all lowByte (marshalMember m)"
  by (simp add: marshalMember_def FormatInt_low) (simp add: lowByte_def quoteChar_def)

lemma marshalMembers_low:
  "list_all (\<lambda>m. list_all lowByte (fst m)) ms \<Longrightarrow> list_all lowByte (marshalMembers ms)"
  by (induction ms rule: marshalMembers.induct)
    (simp_all add: marshalMember_low, simp add: lowByte_def)

lemma marshalObject_low:
  "list_all (\<lambda>m. list_all lowByte (fst m)) ms \<Longrightarrow> list_all lowByte (marshalObject ms)"
  by (simp add: marshalObject_def marshalMembers_low) (simp add: lowByte_def)

lemma token_json_low: "list_all lowByte (nextPageJSON t)" "list_all lowByte (syncJSON s)"
proof -
  show "list_all lowByte (nextPageJSON t)"
    unfolding nextPageJSON_def by (rule marshalObject_low) (simp add: lowByte_def)
  show "list_all lowByte (syncJSON s)"
    unfolding syncJSON_def by (rule marshalObject_low) (simp add: lowByte_def)
qed

lemma token_text_alnum:
  "set (nextPageText t) \<subseteq> insert padChar (set (take 62 encodeStd))"
  "set (syncText s) \<subseteq> insert padChar (set (take 62 encodeStd))"
  by (simp_all add: nextPageText_def syncText_def b64Encode_alnum token_json_low)

lemma alnum_properties:
  assumes "c \<in> insert padChar (set (take 62 encodeStd))"
  shows "queryValueSafe c" and "c \<noteq> CHR ''&''" and "c \<noteq> CHR '';''" and "c \<noteq> CHR ''%''"
    and "c \<noteq> CHR ''+''"
  using assms by (auto simp: queryValueSafe_def padChar_def encodeStd_def)

lemma queryUnescape_plain:
  "CHR ''%'' \<notin> set v \<Longrightarrow> CHR ''+'' \<notin> set v \<Longrightarrow> queryUnescape v = Some v"
  by (induction v) auto

lemma cut_absent: "sep \<notin> set s \<Longrightarrow> cut sep s = (s, [])"
proof -
  assume "sep \<notin> set s"
  then have "\<forall>c \<in> set s. c \<noteq> sep" by auto
  then have t: "takeWhile (\<lambda>c. c \<noteq> sep) s = s"
    and d: "dropWhile (\<lambda>c. c \<noteq> sep) s = []"
    by (simp_all only: takeWhile_eq_all_conv dropWhile_eq_Nil_conv)
  show ?thesis
    unfolding cut_def t d by simp
qed

lemma cut_first: "sep \<notin> set k \<Longrightarrow> cut sep (k @ sep # v) = (k, v)"
proof -
  assume "sep \<notin> set k"
  then have "\<forall>c \<in> set k. c \<noteq> sep" by auto
  then show ?thesis
    by (simp add: cut_def takeWhile_append2 dropWhile_append2)
qed

lemma Query_Get_single:
  assumes "k \<noteq> []" and "\<forall>c \<in> set k. c \<notin> set ''&;=%+''"
    and "\<forall>c \<in> set v. c \<notin> set ''&;%+''"
  shows "Query_Get (k @ CHR ''='' # v) k = v"
proof -
  let ?q = "k @ CHR ''='' # v"
  from assms have a: "CHR ''&'' \<notin> set ?q" and s: "CHR '';'' \<notin> set ?q"
    and e: "CHR ''='' \<notin> set k"
    and pk: "CHR ''%'' \<notin> set k" "CHR ''+'' \<notin> set k"
    and pv: "CHR ''%'' \<notin> set v" "CHR ''+'' \<notin> set v"
    by auto
  have n: "?q \<noteq> []" by simp
  have "parseQuery ?q = [(k, v)]"
    by (subst parseQuery.simps)
      (simp add: cut_absent [OF a] cut_first [OF e] s [simplified] assms(1)
        queryUnescape_plain [OF pk] queryUnescape_plain [OF pv] parseQuery.simps [of "[]"])
  then show ?thesis
    by (simp add: Query_Get_def)
qed

text \<open>
  C8. The text of an encoded token of either kind consists of letters, digits and the
  padding character \<^verbatim>\<open>=\<close> only: the JSON that is encoded is ASCII without a byte whose
  low six bits are 62 or 63, so the characters \<^verbatim>\<open>+\<close> and \<^verbatim>\<open>/\<close> of the standard alphabet
  never occur. Each of these characters may stand unescaped in the value of a query
  parameter, and the handler reads the token back unchanged from a query that holds it
  unescaped.
\<close>

theorem token_text_query_safe:
  "list_all queryValueSafe (nextPageText t) \<and> list_all queryValueSafe (syncText s)
   \<and> set (nextPageText t) \<subseteq> insert padChar (set (take 62 encodeStd))
   \<and> set (syncText s) \<subseteq> insert padChar (set (take 62 encodeStd))
   \<and> q_next_page_token (requestOf (''next_page_token='' @ nextPageText t)) = nextPageText t
   \<and> q_sync_token (requestOf (''sync_token='' @ syncText s)) = syncText s"
proof -
  have v: "\<forall>c \<in> set x. c \<notin> set ''&;%+''"
    if "set x \<subseteq> insert padChar (set (take 62 encodeStd))" for x
  proof
    fix c assume "c \<in> set x"
    with that have "c \<in> insert padChar (set (take 62 encodeStd))" by blast
    from alnum_properties(2-5) [OF this] show "c \<notin> set ''&;%+''" by simp
  qed
  have 1: "Query_Get (''next_page_token='' @ nextPageText t) ''next_page_token'' =
      nextPageText t"
    using Query_Get_single [of "''next_page_token''" "nextPageText t"]
      v [OF token_text_alnum(1)] by simp
  have 2: "Query_Get (''sync_token='' @ syncText s) ''sync_token'' = syncText s"
    using Query_Get_single [of "''sync_token''" "syncText s"]
      v [OF token_text_alnum(2)] by simp
  have 3: "list_all queryValueSafe (nextPageText t)" "list_all queryValueSafe (syncText s)"
    using token_text_alnum(1) [of t] token_text_alnum(2) [of s] alnum_properties(1)
    by (auto simp: list_all_iff)
  from 1 2 3 token_text_alnum(1) [of t] token_text_alnum(2) [of s] show ?thesis
    by (simp add: requestOf_def)
qed

subsection \<open>Malformed tokens\<close>

lemma store_isl:
  "isl (storeInt64 x old) \<longleftrightarrow> \<not> fitsInt64 x"
  "isl (storePtrInt64 x old') \<longleftrightarrow> \<not> fitsInt64 x"
  by (cases x; simp split: option.splits)+

lemma isl_sum_case:
  "isl (case s of Inl e \<Rightarrow> Inl e | Inr n \<Rightarrow> f n) \<longleftrightarrow> isl s \<or> (\<exists>n. s = Inr n \<and> isl (f n))"
  by (cases s) simp_all

lemma objectNextPage_isl:
  "isl (objectNextPage kvs v) \<longleftrightarrow>
     \<not> list_all (\<lambda>kv. findField [''t'', ''o'', ''u'', ''v''] (fst kv) = None
                       \<or> fitsInt64 (snd kv)) kvs"
proof (induction kvs arbitrary: v)
  case Nil
  show ?case by simp
next
  case (Cons kv kvs)
  obtain key x where kv: "kv = (key, x)" by (cases kv)
  show ?case
  proof (cases "findField [''t'', ''o'', ''u'', ''v''] key")
    case None
    with Cons kv show ?thesis by simp
  next
    case (Some f)
    have a: "isl (storeInt64 x old) = (\<not> fitsInt64 x)" for old
      by (rule store_isl)
    have b: "isl (storePtrInt64 x old) = (\<not> fitsInt64 x)" for old
      by (rule store_isl)
    have c: "\<not> isl s \<Longrightarrow> \<exists>n. s = Inr n" for s :: "DecodeError + 'a"
      by (cases s) simp_all
    show ?thesis
      using Some Cons c [of "storeInt64 x (np_t v)"] c [of "storeInt64 x (np_o v)"]
        c [of "storePtrInt64 x (np_u v)"] c [of "storeInt64 x (np_v v)"]
      by (auto simp: kv isl_sum_case a b)
  qed
qed

lemma objectSync_isl:
  "isl (objectSync kvs v) \<longleftrightarrow>
     \<not> list_all (\<lambda>kv. findField [''t'', ''v''] (fst kv) = None \<or> fitsInt64 (snd kv)) kvs"
proof (induction kvs arbitrary: v)
  case Nil
  show ?case by simp
next
  case (Cons kv kvs)
  obtain key x where kv: "kv = (key, x)" by (cases kv)
  show ?case
  proof (cases "findField [''t'', ''v''] key")
    case None
    with Cons kv show ?thesis by simp
  next
    case (Some f)
    have a: "isl (storeInt64 x old) = (\<not> fitsInt64 x)" for old
      by (rule store_isl)
    have c: "\<not> isl s \<Longrightarrow> \<exists>n. s = Inr n" for s :: "DecodeError + 'a"
      by (cases s) simp_all
    show ?thesis
      using Some Cons c [of "storeInt64 x (sy_t v)"] c [of "storeInt64 x (sy_v v)"]
      by (auto simp: kv isl_sum_case a)
  qed
qed

lemma unmarshal_isl:
  "isl (unmarshalNextPage buf) \<longleftrightarrow>
     (case parseJSON buf of
        None \<Rightarrow> True
      | Some j \<Rightarrow> \<not> fitsStruct [''t'', ''o'', ''u'', ''v''] j)"
  "isl (unmarshalSync buf) \<longleftrightarrow>
     (case parseJSON buf of None \<Rightarrow> True | Some j \<Rightarrow> \<not> fitsStruct [''t'', ''v''] j)"
  by (simp_all add: unmarshalNextPage_def unmarshalSync_def fitsStruct_def
      objectNextPage_isl objectSync_isl split: option.splits json.splits)

text \<open>
  C4, as the claim states it, fails for a missing field and for a wrong shape. The text
  \<^const>\<open>nextPageTextMissing\<close> is valid base64 of a JSON object without the member \<open>o\<close>
  of a next-page token (it is the text of a sync token): sent as the next-page token it
  decodes, with the offset 0, and the request is answered with status 200 and records.
  The text \<^const>\<open>syncTextNull\<close> is valid base64 of the JSON value \<open>null\<close>, which is no
  object: it decodes to a sync token with both timestamps at Unix time 0.
\<close>

theorem missing_field_counterexample:
  "map_option parseJSON (b64Decode nextPageTextMissing) =
     Some (Some (JObject [(''t'', JNumber ''1700000000''), (''v'', JNumber ''1700086400'')]))
   \<and> NextPageToken_UnmarshalJSON zeroNextPageToken nextPageTextMissing =
       Inr \<lparr>Timestamp = time_Unix 1700000000, UpdatedAfter = zeroTime, Offset = 0,
            ValidUntil = time_Unix 1700086400\<rparr>
   \<and> listHandler (tableDB [someUser]) clock0 (nextPageRequest nextPageTextMissing []) =
       \<lparr>status = StatusOK, body = Listing \<lparr>users = [someUser], next_page_token = None,
          sync_token = Some \<lparr>syncTimestamp = time_Unix 1700000000,
            syncValidUntil =
              AddDate_0_0_1 (time_Local clock0) (now_issue clock0)\<rparr>\<rparr>\<rparr>
   \<and> map_option parseJSON (b64Decode syncTextNull) = Some (Some JNull)
   \<and> SyncToken_UnmarshalJSON zeroSyncToken syncTextNull =
       Inr \<lparr>syncTimestamp = time_Unix 0, syncValidUntil = time_Unix 0\<rparr>"
proof -
  have 1: "map_option parseJSON (b64Decode nextPageTextMissing) =
     Some (Some (JObject [(''t'', JNumber ''1700000000''), (''v'', JNumber ''1700086400'')]))"
    by code_simp
  have 2: "NextPageToken_UnmarshalJSON zeroNextPageToken nextPageTextMissing =
       Inr \<lparr>Timestamp = time_Unix 1700000000, UpdatedAfter = zeroTime, Offset = 0,
            ValidUntil = time_Unix 1700086400\<rparr>"
    by code_simp
  have 3: "map_option parseJSON (b64Decode syncTextNull) = Some (Some JNull)"
    by code_simp
  have 4: "SyncToken_UnmarshalJSON zeroSyncToken syncTextNull =
       Inr \<lparr>syncTimestamp = time_Unix 0, syncValidUntil = time_Unix 0\<rparr>"
    by code_simp
  have a: "q_sync_token (nextPageRequest nextPageTextMissing []) = []"
    and b: "q_next_page_token (nextPageRequest nextPageTextMissing []) \<noteq> []"
    and d: "NextPageToken_UnmarshalJSON zeroNextPageToken
        (q_next_page_token (nextPageRequest nextPageTextMissing [])) =
       Inr \<lparr>Timestamp = time_Unix 1700000000, UpdatedAfter = zeroTime, Offset = 0,
            ValidUntil = time_Unix 1700086400\<rparr>"
    by (simp_all add: nextPageRequest_def 2) (simp add: nextPageTextMissing_def)
  have x: "\<not> Before (ValidUntil \<lparr>Timestamp = time_Unix 1700000000, UpdatedAfter = zeroTime,
            Offset = 0, ValidUntil = time_Unix 1700086400\<rparr>) (now_expiry clock0)"
    by (simp add: Before_def clock0_def time_Unix_def unixToInternal_def)
  have m: "readMaxResults (nextPageRequest nextPageTextMissing []) = 10"
    by (simp add: readMaxResults_def nextPageRequest_def)
  have 5: "listHandler (tableDB [someUser]) clock0 (nextPageRequest nextPageTextMissing []) =
      \<lparr>status = StatusOK, body = Listing \<lparr>users = [someUser], next_page_token = None,
         sync_token = Some \<lparr>syncTimestamp = time_Unix 1700000000,
           syncValidUntil =
             AddDate_0_0_1 (time_Local clock0) (now_issue clock0)\<rparr>\<rparr>\<rparr>"
    by (simp add: listHandler_def readCursor_nextPage [OF a b d x] m buildQuery_def
        tableDB_def IsZero_def zeroTime_def continuation_def)
  from 1 2 3 4 5 show ?thesis
    by simp
qed

text \<open>
  C4, amended. Decoding a text fails exactly when the text is not valid base64, or the
  bytes are not a JSON value, or the value does not fit the struct: it is neither an
  object nor \<open>null\<close>, or a member whose name is (up to case) \<open>t\<close>, \<open>o\<close>, \<open>u\<close> or \<open>v\<close>
  (\<open>t\<close> or \<open>v\<close> for a sync token) holds something else than \<open>null\<close> or the decimal
  literal of an int64. A failure sets nothing of the token, and the request is answered
  with status 400 and the error, without records. A missing member is no failure.
\<close>

theorem decode_error_cases:
  "(isl (NextPageToken_UnmarshalJSON t0 text) \<longleftrightarrow>
      (case b64Decode text of
         None \<Rightarrow> True
       | Some buf \<Rightarrow>
           (case parseJSON buf of
              None \<Rightarrow> True
            | Some j \<Rightarrow> \<not> fitsStruct [''t'', ''o'', ''u'', ''v''] j)))
   \<and> (isl (SyncToken_UnmarshalJSON s0 text) \<longleftrightarrow>
      (case b64Decode text of
         None \<Rightarrow> True
       | Some buf \<Rightarrow>
           (case parseJSON buf of
              None \<Rightarrow> True
            | Some j \<Rightarrow> \<not> fitsStruct [''t'', ''v''] j)))
   \<and> (q_sync_token r \<noteq> []
        \<and> SyncToken_UnmarshalJSON zeroSyncToken (q_sync_token r) = Inl e \<longrightarrow>
      listHandler db clk r = \<lparr>status = StatusBadRequest, body = ErrorText e\<rparr>)
   \<and> (q_sync_token r = [] \<and> q_next_page_token r \<noteq> []
        \<and> NextPageToken_UnmarshalJSON zeroNextPageToken (q_next_page_token r) = Inl e \<longrightarrow>
      listHandler db clk r = \<lparr>status = StatusBadRequest, body = ErrorText e\<rparr>)"
proof -
  have 1: "isl (NextPageToken_UnmarshalJSON t0 text) \<longleftrightarrow>
      (case b64Decode text of
         None \<Rightarrow> True
       | Some buf \<Rightarrow> isl (unmarshalNextPage buf))"
    by (simp add: NextPageToken_UnmarshalJSON_def split: option.splits sum.splits)
  have 2: "isl (SyncToken_UnmarshalJSON s0 text) \<longleftrightarrow>
      (case b64Decode text of
         None \<Rightarrow> True
       | Some buf \<Rightarrow> isl (unmarshalSync buf))"
    by (simp add: SyncToken_UnmarshalJSON_def split: option.splits sum.splits)
  show ?thesis
    unfolding 1 2 unmarshal_isl
    by (simp add: listHandler_def readCursor_def)
qed

theorem decode_error_cases_witness:
  "SyncToken_UnmarshalJSON zeroSyncToken ''e30'' = Inl CorruptInputError
   \<and> listHandler (tableDB [someUser]) clock0 (syncRequest ''e30'') =
       \<lparr>status = StatusBadRequest, body = ErrorText CorruptInputError\<rparr>
   \<and> NextPageToken_UnmarshalJSON zeroNextPageToken syncTextWrongType = Inl UnmarshalTypeError
   \<and> listHandler (tableDB [someUser]) clock0 (nextPageRequest syncTextWrongType []) =
       \<lparr>status = StatusBadRequest, body = ErrorText UnmarshalTypeError\<rparr>"
proof -
  have 1: "SyncToken_UnmarshalJSON zeroSyncToken ''e30'' = Inl CorruptInputError"
    by code_simp
  have 2: "NextPageToken_UnmarshalJSON zeroNextPageToken syncTextWrongType =
      Inl UnmarshalTypeError"
    by code_simp
  have a: "q_sync_token (syncRequest ''e30'') \<noteq> []
      \<and> SyncToken_UnmarshalJSON zeroSyncToken (q_sync_token (syncRequest ''e30'')) =
          Inl CorruptInputError"
    by (simp add: syncRequest_def 1)
  have b: "q_sync_token (nextPageRequest syncTextWrongType []) = []
      \<and> q_next_page_token (nextPageRequest syncTextWrongType []) \<noteq> []
      \<and> NextPageToken_UnmarshalJSON zeroNextPageToken
          (q_next_page_token (nextPageRequest syncTextWrongType [])) = Inl UnmarshalTypeError"
    by (simp add: nextPageRequest_def 2) (simp add: syncTextWrongType_def)
  from decode_error_cases [where r = "syncRequest ''e30''" and e = CorruptInputError
      and db = "tableDB [someUser]" and clk = clock0] a
  have 3: "listHandler (tableDB [someUser]) clock0 (syncRequest ''e30'') =
       \<lparr>status = StatusBadRequest, body = ErrorText CorruptInputError\<rparr>"
    by blast
  from decode_error_cases [where r = "nextPageRequest syncTextWrongType []"
      and e = UnmarshalTypeError and db = "tableDB [someUser]" and clk = clock0] b
  have 4: "listHandler (tableDB [someUser]) clock0 (nextPageRequest syncTextWrongType []) =
       \<lparr>status = StatusBadRequest, body = ErrorText UnmarshalTypeError\<rparr>"
    by blast
  from 1 2 3 4 show ?thesis by simp
qed

end
